theory Spec2Isabelle
  imports Main "HOL-Library.AList" "HOL-Library.Finite_Map"
begin

chapter \<open>The model\<close>

section \<open>Strings as the handlers use them\<close>

text \<open>
  A JavaScript string is modelled as a \<^typ>\<open>string\<close> of ASCII characters. The three
  string operations the handlers call are \<open>toLowerCase\<close>, \<open>trim\<close> and the truthiness
  test of a possibly absent string (\<open>null\<close>, \<open>undefined\<close> and the empty string are
  falsy). Outside ASCII the platform's \<open>toLowerCase\<close> and \<open>trim\<close> do more than the
  model (Unicode case mapping, Unicode white space).
\<close>

definition lower_char :: "char \<Rightarrow> char" where
  "lower_char c =
     (let n = (of_char c :: nat) in if 65 \<le> n \<and> n \<le> 90 then char_of (n + 32) else c)"

definition toLowerCase :: "string \<Rightarrow> string" where
  "toLowerCase s = map lower_char s"

definition is_space :: "char \<Rightarrow> bool" where
  "is_space c = ((of_char c :: nat) \<in> {9, 10, 11, 12, 13, 32})"

definition trim :: "string \<Rightarrow> string" where
  "trim s = rev (dropWhile is_space (rev (dropWhile is_space s)))"

fun truthy :: "string option \<Rightarrow> bool" where
  "truthy None = False"
| "truthy (Some s) = (s \<noteq> [])"

fun truthy_flag :: "bool option \<Rightarrow> bool" where
  "truthy_flag None = False"
| "truthy_flag (Some b) = b"

text \<open>
  \<open>a && b\<close> for a nullable boolean \<open>a\<close> and a boolean \<open>b\<close>: the value is \<open>a\<close> itself when
  \<open>a\<close> is falsy (\<open>null\<close> stays \<open>null\<close>), and \<open>b\<close> otherwise.
\<close>

fun js_and :: "bool option \<Rightarrow> bool \<Rightarrow> bool option" where
  "js_and None b = None"
| "js_and (Some False) b = Some False"
| "js_and (Some True) b = Some b"

definition startsWith :: "string \<Rightarrow> string \<Rightarrow> bool" where
  "startsWith s p = (take (length p) s = p)"

definition endsWith :: "string \<Rightarrow> string \<Rightarrow> bool" where
  "endsWith s p = (length p \<le> length s \<and> drop (length s - length p) s = p)"

fun str_includes :: "string \<Rightarrow> string \<Rightarrow> bool" where
  "str_includes [] p = (p = [])"
| "str_includes (c # cs) p = (startsWith (c # cs) p \<or> str_includes cs p)"

section \<open>Property lookup on a plain object\<close>

text \<open>
  The handlers read a record of strings (the \<open>customData\<close> of a validated request
  body, the \<open>custom_data\<close> column read back from its JSON text) with \<open>obj[key]\<close>. On
  a plain object the lookup returns the object's own entry and otherwise what
  \<open>Object.prototype\<close> holds under that name: for the twelve names below a member of
  the prototype (a function; under \<open>__proto__\<close> the prototype itself), which is truthy
  and is not a string, and \<open>undefined\<close> for every other key. The assignment
  \<open>obj[key] = v\<close> of a string creates or replaces the own entry, except under
  \<open>__proto__\<close>, where the setter of the prototype ignores a value that is no object.
  An object of own entries is kept as an association list and read by key only.
\<close>

definition object_prototype_members :: "string list" where
  "object_prototype_members =
     [''constructor'', ''__defineGetter__'', ''__defineSetter__'', ''hasOwnProperty'',
      ''__lookupGetter__'', ''__lookupSetter__'', ''isPrototypeOf'', ''propertyIsEnumerable'',
      ''toString'', ''valueOf'', ''__proto__'', ''toLocaleString'']"

datatype property = Missing | Own string | Inherited

definition property_of :: "(string \<rightharpoonup> string) \<Rightarrow> string \<Rightarrow> property" where
  "property_of obj k =
     (case obj k of
        Some v \<Rightarrow> Own v
      | None \<Rightarrow> if k \<in> set object_prototype_members then Inherited else Missing)"

definition assign :: "string \<Rightarrow> string \<Rightarrow> (string \<times> string) list \<Rightarrow> (string \<times> string) list" where
  "assign k v obj = (if k = ''__proto__'' then obj else AList.update k v obj)"

section \<open>Origin matcher (\<open>isOriginAllowed\<close>, api/public.ts)\<close>

text \<open>
  \<open>new URL(s)\<close> is the platform's parser, not code of this repository: the matcher
  takes it as the parameter \<open>URL\<close>, which returns \<open>None\<close> where the constructor throws
  and otherwise the two properties the matcher reads, \<open>host\<close> and \<open>origin\<close>.
\<close>

record url =
  host :: string
  origin :: string

definition pattern_matches :: "(string \<Rightarrow> url option) \<Rightarrow> url \<Rightarrow> string \<Rightarrow> string \<Rightarrow> bool" where
  "pattern_matches URL originUrl originHost pattern =
     (let normalizedPattern = trim (toLowerCase pattern) in
      if startsWith normalizedPattern ''*.'' then
        (let domain = drop 2 normalizedPattern in
         originHost = domain \<or> endsWith originHost (''.'' @ domain))
      else if str_includes normalizedPattern ''://'' then
        (case URL normalizedPattern of
           None \<Rightarrow> False
         | Some patternUrl \<Rightarrow> origin originUrl = origin patternUrl)
      else originHost = normalizedPattern)"

definition isOriginAllowed :: "(string \<Rightarrow> url option) \<Rightarrow> string \<Rightarrow> string list \<Rightarrow> bool" where
  "isOriginAllowed URL orig allowedOrigins =
     (if allowedOrigins = [] then True
      else case URL orig of
        None \<Rightarrow> False
      | Some originUrl \<Rightarrow>
          list_ex (pattern_matches URL originUrl (toLowerCase (host originUrl))) allowedOrigins)"

text \<open>
  The values of \<open>new URL\<close> at the two origins of the wildcard example; every other
  string is left unparsed, which the example never reaches.
\<close>

definition example_URL :: "string \<Rightarrow> url option" where
  "example_URL s =
     (if s = ''https://a.example.com''
        then Some \<lparr>host = ''a.example.com'', origin = ''https://a.example.com''\<rparr>
      else if s = ''https://example.com''
        then Some \<lparr>host = ''example.com'', origin = ''https://example.com''\<rparr>
      else None)"

section \<open>Errors (lib/errors.ts)\<close>

text \<open>
  An \<open>AppError\<close> carries the HTTP status, the machine code and the message. Any other
  exception (a throwing provider call, a constraint violation of the store, a
  \<open>TypeError\<close>) is \<open>Thrown\<close> with its message; the application's error handler answers
  it with status 500 (400 when the message contains \<open>Validation\<close>). \<open>BadRequest\<close> is the
  response with status 400 by which the body validator of a route refuses a body.
\<close>

datatype error = AppError nat string string | Thrown string | BadRequest

definition Forbidden :: "string \<Rightarrow> error" where
  "Forbidden msg = AppError 403 ''FORBIDDEN'' msg"

definition ValidationError :: "string \<Rightarrow> error" where
  "ValidationError msg = AppError 400 ''VALIDATION_ERROR'' msg"

definition InvalidEmail :: error where
  "InvalidEmail = AppError 400 ''INVALID_EMAIL'' ''Invalid email address''"

definition NotFound :: "string \<Rightarrow> error" where
  "NotFound resource = AppError 404 ''NOT_FOUND'' (resource @ '' not found'')"

definition WaitlistNotFound :: error where
  "WaitlistNotFound = AppError 404 ''WAITLIST_NOT_FOUND'' ''Waitlist not found''"

definition SignupNotFound :: error where
  "SignupNotFound = AppError 404 ''SIGNUP_NOT_FOUND'' ''Signup not found''"

definition AlreadySignedUp :: error where
  "AlreadySignedUp = AppError 409 ''ALREADY_SIGNED_UP'' ''This email is already on the waitlist''"

definition DemoMode :: error where
  "DemoMode = AppError 403 ''DEMO_MODE''
     ''This action is disabled in demo mode. Deploy your own instance to make changes.''"

definition RateLimited :: error where
  "RateLimited = AppError 429 ''RATE_LIMITED'' ''Too many requests. Please try again later.''"

section \<open>Rate limiter (middleware/rate-limit.ts)\<close>

text \<open>
  \<open>rateLimitStore\<close> is a map from key to \<open>{count, resetAt}\<close>. Times are milliseconds
  (\<open>Date.now()\<close>). One request reads the clock twice, once in
  \<open>cleanupExpiredIfNeeded\<close> and once in the middleware: \<open>now0\<close> and \<open>now\<close>. A header
  value is kept as the number whose \<open>toString()\<close> the code sends.
\<close>

record rl_record =
  count :: int
  resetAt :: int

type_synonym rl_store = "(string, rl_record) fmap"

definition expired :: "rl_store \<Rightarrow> int \<Rightarrow> string \<Rightarrow> bool" where
  "expired st now k = (case fmlookup st k of None \<Rightarrow> False | Some v \<Rightarrow> resetAt v < now)"

definition cleanupExpiredIfNeeded :: "int \<Rightarrow> rl_store \<Rightarrow> rl_store" where
  "cleanupExpiredIfNeeded now st =
     (if fcard (fmdom st) > 1000 then fmfilter (\<lambda>k. \<not> expired st now k) st else st)"

definition ceil_div :: "int \<Rightarrow> int \<Rightarrow> int" where
  "ceil_div a b = - ((- a) div b)"

record rl_out =
  store :: rl_store
  headers :: "(string \<times> int) list"
  outcome :: "error + unit"

definition rateLimit :: "int \<Rightarrow> int \<Rightarrow> string \<Rightarrow> int \<Rightarrow> int \<Rightarrow> rl_store \<Rightarrow> rl_out" where
  "rateLimit windowMs mx key now0 now st0 =
     (let st1 = cleanupExpiredIfNeeded now0 st0;
          fresh = \<lparr>count = 1, resetAt = now + windowMs\<rparr>;
          rec = (case fmlookup st1 key of
                   None \<Rightarrow> fresh
                 | Some r \<Rightarrow> if resetAt r < now then fresh else r\<lparr>count := count r + 1\<rparr>);
          st2 = fmupd key rec st1;
          hdrs = [(''X-RateLimit-Limit'', mx),
                  (''X-RateLimit-Remaining'', max 0 (mx - count rec)),
                  (''X-RateLimit-Reset'', ceil_div (resetAt rec) 1000)]
      in if count rec > mx
         then \<lparr>store = st2,
               headers = hdrs @ [(''Retry-After'', ceil_div (resetAt rec - now) 1000)],
               outcome = Inl RateLimited\<rparr>
         else \<lparr>store = st2, headers = hdrs, outcome = Inr ()\<rparr>)"

text \<open>\<open>getClientIp(c) || "unknown"\<close>, prefixed with the route class.\<close>

definition signup_key :: "string option \<Rightarrow> string" where
  "signup_key ip =
     ''signup:'' @ (case ip of None \<Rightarrow> ''unknown'' | Some a \<Rightarrow> if a = [] then ''unknown'' else a)"

definition signupRateLimit :: "string option \<Rightarrow> int \<Rightarrow> int \<Rightarrow> rl_store \<Rightarrow> rl_out" where
  "signupRateLimit ip now0 now st = rateLimit (60 * 60 * 1000) 10 (signup_key ip) now0 now st"

text \<open>
  A run of the signup limiter over a sequence of requests \<open>(ip, now0, now)\<close>, each on
  the store the one before left: the outputs in order.
\<close>

fun serve :: "(string option \<times> int \<times> int) list \<Rightarrow> rl_store \<Rightarrow> rl_out list" where
  "serve [] st = []"
| "serve ((ip, now0, now) # qs) st =
     (let out = signupRateLimit ip now0 now st in out # serve qs (store out))"

text \<open>How many requests of a sequence carry the key \<open>k\<close>.\<close>

definition hits :: "string \<Rightarrow> (string option \<times> int \<times> int) list \<Rightarrow> nat" where
  "hits k qs = length (filter (\<lambda>q. signup_key (fst q) = k) qs)"

text \<open>
  Eleven requests that follow a first one at time 0: ten from the same address, one
  (the third) from another address.
\<close>

definition burst_rest :: "(string option \<times> int \<times> int) list" where
  "burst_rest =
     [(Some ''203.0.113.7'', 1000, 1000), (Some ''203.0.113.7'', 2000, 2001),
      (Some ''198.51.100.2'', 2500, 2500), (Some ''203.0.113.7'', 3000, 3000),
      (Some ''203.0.113.7'', 4000, 4000), (Some ''203.0.113.7'', 5000, 5000),
      (Some ''203.0.113.7'', 6000, 6000), (Some ''203.0.113.7'', 7000, 7000),
      (Some ''203.0.113.7'', 8000, 8000), (Some ''203.0.113.7'', 9000, 9000),
      (Some ''203.0.113.7'', 10000, 10000)]"

section \<open>Data model (db/schema.ts)\<close>

text \<open>
  The two tables, each a list of rows in insertion order. A nullable column is an
  \<^typ>\<open>'a option\<close>. The columns \<open>id\<close> are named \<open>wid\<close> and \<open>sid\<close> here. Timestamps
  are stored in seconds (the \<open>timestamp\<close> mode of the columns): a \<open>Date\<close> of \<open>ms\<close>
  milliseconds is stored as \<open>ms div 1000\<close>.
\<close>

datatype status = Pending | Confirmed | Invited

record custom_field =
  key :: string
  label :: string
  required :: bool

record waitlist =
  wid :: string
  name :: string
  slug :: string
  logoUrl :: "string option"
  primaryColor :: "string option"
  doubleOptIn :: "bool option"
  redirectUrl :: "string option"
  customFields :: "custom_field list option"
  notifyOnSignup :: "bool option"
  notifyEmail :: "string option"
  webhookUrl :: "string option"
  allowedOrigins :: "string list option"

record signup =
  sid :: string
  waitlistId :: string
  email :: string
  position :: int
  status :: status
  customData :: "(string \<times> string) list"
  referralSource :: "string option"
  ipAddress :: "string option"
  userAgent :: "string option"
  confirmationToken :: "string option"
  confirmedAt :: "int option"
  createdAt :: int

record db =
  waitlists :: "waitlist list"
  signups :: "signup list"

definition to_seconds :: "int \<Rightarrow> int" where
  "to_seconds ms = ms div 1000"

text \<open>\<open>UPDATE signups SET ... WHERE p\<close>: every row that satisfies \<open>p\<close> is rewritten.\<close>

definition update_signups :: "(signup \<Rightarrow> bool) \<Rightarrow> (signup \<Rightarrow> signup) \<Rightarrow> db \<Rightarrow> db" where
  "update_signups p f d = d\<lparr>signups := map (\<lambda>s. if p s then f s else s) (signups d)\<rparr>"

text \<open>
  \<open>INSERT INTO signups\<close>: the store refuses a row whose primary key is taken or
  whose \<open>(waitlist_id, email)\<close> pair is taken (the unique index
  \<open>waitlist_email_unique\<close>); the driver then throws.
\<close>

definition insert_signup :: "signup \<Rightarrow> db \<Rightarrow> error + db" where
  "insert_signup s d =
     (if list_ex (\<lambda>x. sid x = sid s) (signups d)
        then Inl (Thrown ''UNIQUE constraint failed: signups.id'')
      else if list_ex (\<lambda>x. waitlistId x = waitlistId s \<and> email x = email s) (signups d)
        then Inl (Thrown ''UNIQUE constraint failed: signups.waitlist_id, signups.email'')
      else Inr (d\<lparr>signups := signups d @ [s]\<rparr>))"

section \<open>Helpers (lib/utils.ts) and email dispatch (emails/send.ts)\<close>

definition normalizeEmail :: "string \<Rightarrow> string" where
  "normalizeEmail e = trim (toLowerCase e)"

text \<open>
  \<open>isValidEmail\<close> tests the regular expression \<open>^[^\s@]+@[^\s@]+\.[^\s@]+$\<close> and a
  length of at most 254. A string matches exactly when it has one \<open>@\<close>, no white
  space, a non-empty part before the \<open>@\<close>, and after it a dot that is neither the
  first nor the last character of that part.
\<close>

definition email_char :: "char \<Rightarrow> bool" where
  "email_char c = (\<not> is_space c \<and> c \<noteq> CHR ''@'')"

definition isValidEmail :: "string \<Rightarrow> bool" where
  "isValidEmail e =
     (let a = takeWhile (\<lambda>c. c \<noteq> CHR ''@'') e;
          rest = drop (length a + 1) e
      in (length a < length e \<and> a \<noteq> [] \<and> list_all email_char a \<and> list_all email_char rest
          \<and> list_ex (\<lambda>i. rest ! i = CHR ''.'') [1..<length rest - 1])
         \<and> length e \<le> 254)"

record env =
  RESEND_API_KEY :: "string option"
  RESEND_FROM_EMAIL :: "string option"
  DEMO_MODE :: "string option"

definition isDemoMode :: "env \<Rightarrow> bool" where
  "isDemoMode e = (DEMO_MODE e = Some ''true'')"

definition isEmailConfigured :: "env \<Rightarrow> bool" where
  "isEmailConfigured e = (truthy (RESEND_API_KEY e) \<and> truthy (RESEND_FROM_EMAIL e))"

text \<open>
  The email provider (the Resend client, the Email Workers binding and the template
  renderer) is outside the repository. For each of the three messages the record
  \<open>provider\<close> says what rendering and sending it does in this request: \<open>Delivered\<close>
  when the call returns and the message was accepted, \<open>Refused\<close> when the call returns
  and its result carries the provider's error (\<open>{data: null, error}\<close>), \<open>Raised msg\<close>
  when it throws an \<open>Error\<close> with that message. The send functions await the call and
  drop its result. A send function returns \<open>None\<close> when it returns and \<open>Some e\<close> when
  it throws \<open>e\<close>.
\<close>

datatype send_result = Delivered | Refused | Raised string

record provider =
  confirmationSend :: send_result
  welcomeSend :: send_result
  adminSend :: send_result

definition thrown :: "send_result \<Rightarrow> error option" where
  "thrown r = (case r of Raised msg \<Rightarrow> Some (Thrown msg) | _ \<Rightarrow> None)"

definition sendConfirmationEmail :: "env \<Rightarrow> provider \<Rightarrow> error option" where
  "sendConfirmationEmail e p =
     (if \<not> truthy (RESEND_API_KEY e) \<or> \<not> truthy (RESEND_FROM_EMAIL e)
      then Some (Thrown ''Email not configured. Set RESEND_API_KEY and RESEND_FROM_EMAIL to enable double opt-in.'')
      else thrown (confirmationSend p))"

definition sendWelcomeEmail :: "env \<Rightarrow> provider \<Rightarrow> error option" where
  "sendWelcomeEmail e p =
     (if \<not> truthy (RESEND_API_KEY e) \<or> \<not> truthy (RESEND_FROM_EMAIL e) then None
      else thrown (welcomeSend p))"

definition sendAdminNotificationEmail :: "provider \<Rightarrow> waitlist \<Rightarrow> error option" where
  "sendAdminNotificationEmail p w =
     (if \<not> truthy_flag (notifyOnSignup w) then None else thrown (adminSend p))"

text \<open>
  \<open>try { await sendWelcomeEmail(..); await sendAdminNotificationEmail(..) } catch { console.error(..) }\<close>:
  the lines logged. The second send is not tried when the first throws.
\<close>

definition welcome_and_notify :: "string \<Rightarrow> env \<Rightarrow> provider \<Rightarrow> waitlist \<Rightarrow> string list" where
  "welcome_and_notify line e p w =
     (case sendWelcomeEmail e p of
        Some err \<Rightarrow> [line]
      | None \<Rightarrow> (case sendAdminNotificationEmail p w of Some err \<Rightarrow> [line] | None \<Rightarrow> []))"

text \<open>
  What a handler leaves behind: the tables, the lines it logged, and either the
  error it threw or the response it returned. A thrown error does not undo the
  writes made before it: no handler opens a transaction.
\<close>

record 'a reply =
  db_after :: db
  logs :: "string list"
  result :: "error + 'a"

section \<open>Public handlers (api/public.ts)\<close>

subsection \<open>\<open>POST /:slug/signup\<close>\<close>

record signup_body =
  b_email :: string
  b_customData :: "(string \<rightharpoonup> string) option"
  b_referralSource :: "string option"

text \<open>
  What the request and the platform supply besides the body: the client address
  (\<open>getClientIp\<close>: null or a non-empty string), the \<open>user-agent\<close> header, and the
  values drawn in this request: \<open>crypto.randomUUID()\<close> for the new row's id,
  \<open>generateToken()\<close>, the handler's \<open>new Date()\<close> (\<open>now_ms\<close>), the \<open>new Date()\<close> that
  the column default of \<open>created_at\<close> takes at the insertion (\<open>insert_ms\<close>), and the two
  clock reads of the rate limiter, all in milliseconds.
\<close>

record request_ctx =
  clientIp :: "string option"
  userAgentHeader :: "string option"
  newId :: string
  newToken :: string
  now_ms :: int
  insert_ms :: int
  rl_now0 :: int
  rl_now :: int

text \<open>
  The JSON body of a successful response. \<open>requiresConfirmation\<close> is \<open>true\<close>, \<open>false\<close> or
  \<open>null\<close>.
\<close>

record signup_response =
  r_message :: string
  r_position :: int
  r_requiresConfirmation :: "bool option"
  r_redirectUrl :: "string option"

text \<open>
  The webhook of the handlers (\<open>triggerWebhook(...).catch(...)\<close>) is fired without being
  awaited and its failure is caught: it changes neither the tables nor the response,
  and the model leaves it out.
\<close>

text \<open>\<open>x || null\<close> on an optional string.\<close>

definition or_null :: "string option \<Rightarrow> string option" where
  "or_null x = (if truthy x then x else None)"

text \<open>
  The loop over the waitlist's custom fields. \<open>value\<close> is what
  \<open>body.customData?.[field.key]\<close> returns and \<open>acc\<close> is the object \<open>customData\<close>. An
  inherited member is truthy and has no method \<open>trim\<close>: the call \<open>value.trim()\<close> throws
  a \<open>TypeError\<close>, for a required field in the test and for any other field in the
  assignment.
\<close>

fun collect_custom ::
  "custom_field list \<Rightarrow> (string \<Rightarrow> property) \<Rightarrow> (string \<times> string) list
     \<Rightarrow> error + (string \<times> string) list" where
  "collect_custom [] value acc = Inr acc"
| "collect_custom (f # fs) value acc =
     (case value (key f) of
        Missing \<Rightarrow>
          if required f then Inl (ValidationError (label f @ '' is required''))
          else collect_custom fs value acc
      | Inherited \<Rightarrow> Inl (Thrown ''value.trim is not a function'')
      | Own v \<Rightarrow>
          if required f \<and> (v = [] \<or> trim v = []) then Inl (ValidationError (label f @ '' is required''))
          else collect_custom fs value (if v \<noteq> [] then assign (key f) (trim v) acc else acc))"

text \<open>\<open>SELECT position FROM signups WHERE waitlist_id = w_id\<close>.\<close>

definition waitlist_positions :: "db \<Rightarrow> string \<Rightarrow> int list" where
  "waitlist_positions d w_id = map position (filter (\<lambda>s. waitlistId s = w_id) (signups d))"

text \<open>
  \<open>(COALESCE(MAX(position), 0) || 0) + 1\<close>. A position is an integer here; the code's
  numbers are exact integers below \<open>2^53\<close>.
\<close>

definition next_position :: "db \<Rightarrow> string \<Rightarrow> int" where
  "next_position d w_id =
     (let ps = waitlist_positions d w_id;
          maxPosition = (if ps = [] then 0 else Max (set ps))
      in (if maxPosition = 0 then 0 else maxPosition) + 1)"

text \<open>The row that \<open>insert(signups).values({...})\<close> writes.\<close>

definition new_signup ::
  "bool option \<Rightarrow> request_ctx \<Rightarrow> waitlist \<Rightarrow> int \<Rightarrow> string \<Rightarrow> (string \<times> string) list
     \<Rightarrow> string option \<Rightarrow> signup" where
  "new_signup useDoubleOptIn ctx w pos em cd ref =
     \<lparr>sid = newId ctx, waitlistId = wid w, email = em, position = pos,
      status = (if truthy_flag useDoubleOptIn then Pending else Confirmed),
      customData = cd, referralSource = or_null ref,
      ipAddress = clientIp ctx, userAgent = or_null (userAgentHeader ctx),
      confirmationToken = (if truthy_flag useDoubleOptIn then Some (newToken ctx) else None),
      confirmedAt = (if truthy_flag useDoubleOptIn then None else Some (to_seconds (now_ms ctx))),
      createdAt = to_seconds (insert_ms ctx)\<rparr>"

definition fail :: "db \<Rightarrow> string list \<Rightarrow> error \<Rightarrow> 'a reply" where
  "fail d ls e = \<lparr>db_after = d, logs = ls, result = Inl e\<rparr>"

definition reply_ok :: "db \<Rightarrow> string list \<Rightarrow> 'a \<Rightarrow> 'a reply" where
  "reply_ok d ls r = \<lparr>db_after = d, logs = ls, result = Inr r\<rparr>"

definition resend_confirmation ::
  "env \<Rightarrow> provider \<Rightarrow> request_ctx \<Rightarrow> db \<Rightarrow> signup \<Rightarrow> signup_response reply" where
  "resend_confirmation e p ctx d existingSignup =
     (let d' = update_signups (\<lambda>s. sid s = sid existingSignup)
                 (\<lambda>s. s\<lparr>confirmationToken := Some (newToken ctx)\<rparr>) d
      in case sendConfirmationEmail e p of
           Some err \<Rightarrow> fail d' [] err
         | None \<Rightarrow>
             reply_ok d' []
               \<lparr>r_message = ''Confirmation email resent. Please check your inbox.'',
                r_position = position existingSignup,
                r_requiresConfirmation = Some True,
                r_redirectUrl = None\<rparr>)"

definition create_signup ::
  "env \<Rightarrow> provider \<Rightarrow> request_ctx \<Rightarrow> db \<Rightarrow> waitlist \<Rightarrow> string \<Rightarrow> (string \<times> string) list
     \<Rightarrow> string option \<Rightarrow> signup_response reply" where
  "create_signup e p ctx d w em cd ref =
     (let emailConfigured = isEmailConfigured e;
          useDoubleOptIn = js_and (doubleOptIn w) emailConfigured;
          warn = (if truthy_flag (doubleOptIn w) \<and> \<not> emailConfigured
                  then [''[Signup] Double opt-in enabled but email not configured, falling back to direct confirmation'']
                  else []);
          pos = next_position d (wid w);
          newSignup = new_signup useDoubleOptIn ctx w pos em cd ref;
          response =
            \<lparr>r_message = (if truthy_flag useDoubleOptIn
                          then ''Please check your email to confirm your spot.''
                          else ''You're on the list!''),
             r_position = pos,
             r_requiresConfirmation = useDoubleOptIn,
             r_redirectUrl = or_null (redirectUrl w)\<rparr>
      in case insert_signup newSignup d of
           Inl err \<Rightarrow> fail d warn err
         | Inr d' \<Rightarrow>
             if truthy_flag useDoubleOptIn then
               (case sendConfirmationEmail e p of
                  Some err \<Rightarrow> fail d' warn err
                | None \<Rightarrow> reply_ok d' warn response)
             else if emailConfigured then
               reply_ok d'
                 (warn @ welcome_and_notify ''[Signup] Failed to send welcome/notification email:'' e p w)
                 response
             else reply_ok d' warn response)"

text \<open>\<open>waitlist.customFields || []\<close> and \<open>body.customData?.[key]\<close>.\<close>

definition fields_of :: "waitlist \<Rightarrow> custom_field list" where
  "fields_of w = (case customFields w of None \<Rightarrow> [] | Some fs \<Rightarrow> fs)"

definition body_value :: "signup_body \<Rightarrow> string \<Rightarrow> property" where
  "body_value body k = (case b_customData body of None \<Rightarrow> Missing | Some obj \<Rightarrow> property_of obj k)"

definition signup_handler ::
  "env \<Rightarrow> provider \<Rightarrow> request_ctx \<Rightarrow> db \<Rightarrow> string \<Rightarrow> signup_body \<Rightarrow> signup_response reply" where
  "signup_handler e p ctx d sl body =
     (case find (\<lambda>w. slug w = sl) (waitlists d) of
        None \<Rightarrow> fail d [] WaitlistNotFound
      | Some w \<Rightarrow>
          let em = normalizeEmail (b_email body) in
          if \<not> isValidEmail em then fail d [] InvalidEmail
          else
            (case collect_custom (fields_of w) (body_value body) [] of
               Inl err \<Rightarrow> fail d [] err
             | Inr cd \<Rightarrow>
                 (case find (\<lambda>s. waitlistId s = wid w \<and> email s = em) (signups d) of
                    Some existingSignup \<Rightarrow>
                      if status existingSignup = Confirmed \<or> status existingSignup = Invited
                        then fail d [] AlreadySignedUp
                      else if truthy_flag (doubleOptIn w) \<and> status existingSignup = Pending
                              \<and> isEmailConfigured e
                        then resend_confirmation e p ctx d existingSignup
                      else fail d [] AlreadySignedUp
                  | None \<Rightarrow> create_signup e p ctx d w em cd (b_referralSource body))))"

text \<open>
  The route as the application mounts it (index.tsx, api/public.ts): a \<open>POST\<close> to
  \<open>/api/w/:slug/signup\<close> passes \<open>demoModeGuard\<close>, \<open>dynamicCors\<close>, \<open>signupRateLimit\<close> and
  the validator of the body before it reaches the handler; the first of them that
  refuses ends the request. \<open>orig\<close> is the \<open>Origin\<close> header of the request and \<open>st\<close> the
  store of the rate limiter. The body is a JSON object of the shape of \<open>signupSchema\<close>
  (a string \<open>email\<close>, an optional record of strings \<open>customData\<close>, an optional string
  \<open>referralSource\<close>); what the schema asks beyond the shape is \<open>email()\<close> of the
  validation library, which is outside the repository and taken as the parameter
  \<open>zod_email\<close>. The validator answers a body it refuses with status 400.
\<close>

definition demoModeGuard :: "env \<Rightarrow> error option" where
  "demoModeGuard e = (if isDemoMode e then Some DemoMode else None)"

definition dynamicCors :: "(string \<Rightarrow> url option) \<Rightarrow> db \<Rightarrow> string \<Rightarrow> string option \<Rightarrow> error option" where
  "dynamicCors URL d sl orig =
     (case orig of
        None \<Rightarrow> None
      | Some header \<Rightarrow>
          if header = [] then None
          else
            let allowed = (case find (\<lambda>w. slug w = sl) (waitlists d) of
                             None \<Rightarrow> []
                           | Some w \<Rightarrow> (case allowedOrigins w of None \<Rightarrow> [] | Some os \<Rightarrow> os))
            in if isOriginAllowed URL header allowed then None
               else Some (Forbidden ''This domain is not authorized to submit to this waitlist''))"

definition signup_route ::
  "(string \<Rightarrow> url option) \<Rightarrow> (string \<Rightarrow> bool) \<Rightarrow> env \<Rightarrow> provider \<Rightarrow> request_ctx \<Rightarrow> rl_store
     \<Rightarrow> db \<Rightarrow> string \<Rightarrow> string option \<Rightarrow> signup_body \<Rightarrow> rl_store \<times> signup_response reply" where
  "signup_route URL zod_email e p ctx st d sl orig body =
     (case demoModeGuard e of
        Some err \<Rightarrow> (st, fail d [] err)
      | None \<Rightarrow>
          (case dynamicCors URL d sl orig of
             Some err \<Rightarrow> (st, fail d [] err)
           | None \<Rightarrow>
               let out = signupRateLimit (clientIp ctx) (rl_now0 ctx) (rl_now ctx) st in
               (case outcome out of
                  Inl err \<Rightarrow> (store out, fail d [] err)
                | Inr ok \<Rightarrow>
                    if \<not> zod_email (b_email body) then (store out, fail d [] BadRequest)
                    else (store out, signup_handler e p ctx d sl body))))"

subsection \<open>\<open>GET /:slug/confirm/:token\<close>\<close>

datatype confirm_response = Redirect string | ConfirmJson string int

definition redirect_or :: "waitlist \<Rightarrow> confirm_response \<Rightarrow> confirm_response" where
  "redirect_or w r =
     (case redirectUrl w of None \<Rightarrow> r | Some u \<Rightarrow> if u = [] then r else Redirect u)"

definition confirm_handler ::
  "env \<Rightarrow> provider \<Rightarrow> int \<Rightarrow> db \<Rightarrow> string \<Rightarrow> string \<Rightarrow> confirm_response reply" where
  "confirm_handler e p now d sl token =
     (case find (\<lambda>w. slug w = sl) (waitlists d) of
        None \<Rightarrow> fail d [] WaitlistNotFound
      | Some w \<Rightarrow>
          (case find (\<lambda>s. waitlistId s = wid w \<and> confirmationToken s = Some token) (signups d) of
             None \<Rightarrow> fail d [] (NotFound ''Confirmation link'')
           | Some sg \<Rightarrow>
               if status sg = Confirmed \<or> status sg = Invited
                 then reply_ok d [] (redirect_or w (ConfirmJson ''Your email is already confirmed.'' (position sg)))
               else
                 let d' = update_signups (\<lambda>s. sid s = sid sg)
                            (\<lambda>s. s\<lparr>status := Confirmed, confirmedAt := Some (to_seconds now),
                                   confirmationToken := None\<rparr>) d
                 in reply_ok d' (welcome_and_notify ''[Confirm] Failed to send emails:'' e p w)
                      (redirect_or w (ConfirmJson ''Your email has been confirmed!'' (position sg)))))"

subsection \<open>\<open>GET /:slug/status\<close>\<close>

record status_response =
  st_name :: string
  st_slug :: string
  st_logoUrl :: "string option"
  st_primaryColor :: "string option"
  st_customFields :: "custom_field list option"
  signupCount :: nat

definition status_handler :: "db \<Rightarrow> string \<Rightarrow> error + status_response" where
  "status_handler d sl =
     (case find (\<lambda>w. slug w = sl) (waitlists d) of
        None \<Rightarrow> Inl WaitlistNotFound
      | Some w \<Rightarrow>
          Inr \<lparr>st_name = name w, st_slug = slug w, st_logoUrl = logoUrl w,
               st_primaryColor = primaryColor w, st_customFields = customFields w,
               signupCount =
                 length (filter (\<lambda>s. waitlistId s = wid w \<and> status s = Confirmed) (signups d))\<rparr>)"

section \<open>Admin handlers (api/admin.ts)\<close>

subsection \<open>\<open>PATCH /waitlists/:id/signups/:signupId\<close>\<close>

text \<open>
  \<open>body_status\<close> is the optional \<open>status\<close> of the validated body. The response is
  the signup: the row read when there is nothing to update, else the first row the
  \<open>UPDATE\<close> returns.
\<close>

definition patch_signup :: "int \<Rightarrow> db \<Rightarrow> string \<Rightarrow> string \<Rightarrow> status option \<Rightarrow> signup option reply" where
  "patch_signup now d w_id signupId body_status =
     (case find (\<lambda>s. sid s = signupId \<and> waitlistId s = w_id) (signups d) of
        None \<Rightarrow> fail d [] SignupNotFound
      | Some sg \<Rightarrow>
          (case body_status of
             None \<Rightarrow> reply_ok d [] (Some sg)
           | Some st \<Rightarrow>
               let stamp = (st = Confirmed \<and> confirmedAt sg = None);
                   d' = update_signups (\<lambda>s. sid s = signupId)
                          (\<lambda>s. if stamp then s\<lparr>status := st, confirmedAt := Some (to_seconds now)\<rparr>
                                else s\<lparr>status := st\<rparr>) d
               in reply_ok d' [] (find (\<lambda>s. sid s = signupId) (signups d'))))"

subsection \<open>\<open>GET /waitlists/:id/stats\<close>: the daily series\<close>

text \<open>
  A calendar date \<open>YYYY-MM-DD\<close> is kept as its day number, the days since 1970-01-01:
  \<open>new Date(s + 'T00:00:00Z')\<close> is the instant \<open>day * 86400000\<close> ms, the date part of
  \<open>toISOString()\<close> at an instant \<open>ms\<close> is the day \<open>ms div 86400000\<close>, and SQLite's
  \<open>DATE(t, 'unixepoch')\<close> at \<open>t\<close> seconds is the day \<open>t div 86400\<close>. The query
  parameters \<open>from\<close> and \<open>to\<close> are optional; \<open>now\<close> is \<open>new Date()\<close> in ms. An entry
  \<open>{date, count, confirmed}\<close> of the series is a \<open>daily\<close> record.
\<close>

record daily =
  day_date :: int
  day_count :: nat
  day_confirmed :: nat

definition ms_day :: int where
  "ms_day = 86400000"

definition sql_date :: "int \<Rightarrow> int" where
  "sql_date t = t div 86400"

text \<open>
  \<open>SELECT DATE(createdAt), count(*), SUM(CASE WHEN status IN ('confirmed', 'invited') ...)
  ... GROUP BY DATE(createdAt) ORDER BY DATE(createdAt)\<close> over the selected rows.
\<close>

definition dailySignups :: "signup list \<Rightarrow> daily list" where
  "dailySignups rows =
     map (\<lambda>dy. \<lparr>day_date = dy,
                 day_count = length (filter (\<lambda>s. sql_date (createdAt s) = dy) rows),
                 day_confirmed =
                   length (filter (\<lambda>s. sql_date (createdAt s) = dy
                                       \<and> (status s = Confirmed \<or> status s = Invited)) rows)\<rparr>)
       (sort (remdups (map (\<lambda>s. sql_date (createdAt s)) rows)))"

text \<open>\<open>new Map(dailySignups.map(d => [d.date, ...]))\<close>: a later pair replaces an earlier one.\<close>

definition dateMap :: "daily list \<Rightarrow> (int \<rightharpoonup> daily)" where
  "dateMap ds = map_of (rev (map (\<lambda>e. (day_date e, e)) ds))"

text \<open>
  The loop \<open>for (d = startDate; d <= endDate; d.setUTCDate(d.getUTCDate() + 1))\<close>, with
  \<open>d\<close> and \<open>endDate\<close> in ms; a step adds one day.
\<close>

function fill :: "int \<Rightarrow> int \<Rightarrow> (int \<rightharpoonup> daily) \<Rightarrow> daily list" where
  "fill d endDate m =
     (if d \<le> endDate then
        (let dateStr = d div ms_day in
           \<lparr>day_date = dateStr,
            day_count = (case m dateStr of None \<Rightarrow> 0 | Some e \<Rightarrow> day_count e),
            day_confirmed = (case m dateStr of None \<Rightarrow> 0 | Some e \<Rightarrow> day_confirmed e)\<rparr>
           # fill (d + ms_day) endDate m)
      else [])"
  by pat_completeness auto
termination
  by (relation "measure (\<lambda>(d, endDate, m). nat (endDate - d + 1))") (auto simp: ms_day_def)

text \<open>
  \<open>query.to || now.toISOString().split('T')[0]\<close> and
  \<open>query.from || new Date(now.getTime() - 30 * 24 * 60 * 60 * 1000).toISOString().split('T')[0]\<close>.
\<close>

definition toDay :: "int \<Rightarrow> int option \<Rightarrow> int" where
  "toDay now q_to = (case q_to of None \<Rightarrow> now div ms_day | Some t \<Rightarrow> t)"

definition fromDay :: "int \<Rightarrow> int option \<Rightarrow> int" where
  "fromDay now q_from =
     (case q_from of None \<Rightarrow> (now - 30 * 24 * 60 * 60 * 1000) div ms_day | Some f \<Rightarrow> f)"

definition filledDailySignups :: "int \<Rightarrow> db \<Rightarrow> string \<Rightarrow> int option \<Rightarrow> int option \<Rightarrow> daily list" where
  "filledDailySignups now d w_id q_from q_to =
     (let fromTimestamp = (fromDay now q_from * ms_day) div 1000;
          toTimestamp = (toDay now q_to * ms_day + 86399999) div 1000;
          rows = filter (\<lambda>s. waitlistId s = w_id \<and> fromTimestamp \<le> createdAt s
                               \<and> createdAt s \<le> toTimestamp) (signups d)
      in fill (fromDay now q_from * ms_day) (toDay now q_to * ms_day) (dateMap (dailySignups rows)))"

definition stats_daily :: "int \<Rightarrow> db \<Rightarrow> string \<Rightarrow> int option \<Rightarrow> int option \<Rightarrow> error + daily list" where
  "stats_daily now d w_id q_from q_to =
     (case find (\<lambda>w. wid w = w_id) (waitlists d) of
        None \<Rightarrow> Inl WaitlistNotFound
      | Some w \<Rightarrow> Inr (filledDailySignups now d w_id q_from q_to))"

subsection \<open>\<open>GET /waitlists/:id/signups/export\<close>\<close>

text \<open>
  \<open>position.toString()\<close> of an integer: an optional minus sign and the decimal digits
  (integers of at most 21 digits, which JavaScript prints without an exponent).
  \<open>toISOString\<close> of a stored time stamp is the platform's and a parameter of the
  export.
\<close>

definition digit_char :: "nat \<Rightarrow> char" where
  "digit_char n = char_of (48 + n)"

function digits :: "nat \<Rightarrow> string" where
  "digits n = (if n < 10 then [digit_char n] else digits (n div 10) @ [digit_char (n mod 10)])"
  by pat_completeness auto
termination
  by (relation "measure id") auto

definition show_int :: "int \<Rightarrow> string" where
  "show_int i = (if i < 0 then CHR ''-'' # digits (nat (- i)) else digits (nat i))"

fun status_text :: "status \<Rightarrow> string" where
  "status_text Pending = ''pending''"
| "status_text Confirmed = ''confirmed''"
| "status_text Invited = ''invited''"

definition dquote :: char where
  "dquote = CHR 0x22"

definition comma :: char where
  "comma = CHR '',''"

definition newline :: char where
  "newline = CHR 0x0A"

text \<open>\<open>Array.prototype.join\<close>.\<close>

fun join :: "string \<Rightarrow> string list \<Rightarrow> string" where
  "join sep [] = []"
| "join sep [x] = x"
| "join sep (x # y # ys) = x @ sep @ join sep (y # ys)"

text \<open>The cell between double quotes, every double quote in it doubled.\<close>

definition escape_quotes :: "string \<Rightarrow> string" where
  "escape_quotes cell = concat (map (\<lambda>c. if c = dquote then [dquote, dquote] else [c]) cell)"

definition quote_cell :: "string \<Rightarrow> string" where
  "quote_cell cell = dquote # escape_quotes cell @ [dquote]"

definition or_empty :: "string option \<Rightarrow> string" where
  "or_empty x = (case x of None \<Rightarrow> [] | Some v \<Rightarrow> v)"

definition csv_headers :: "waitlist \<Rightarrow> string list" where
  "csv_headers w =
     [''position'', ''email'', ''status'', ''referral_source''] @ map key (fields_of w)
       @ [''confirmed_at'', ''created_at'']"

text \<open>
  A cell of a row is a string, or (\<open>None\<close>) a value that is not a string: that is what
  \<open>customData[k] || ""\<close> gives for a key that names a member of \<open>Object.prototype\<close> and
  that the row does not own.
\<close>

definition custom_cell :: "(string \<times> string) list \<Rightarrow> string \<Rightarrow> string option" where
  "custom_cell cd k =
     (case property_of (map_of cd) k of Missing \<Rightarrow> Some [] | Own v \<Rightarrow> Some v | Inherited \<Rightarrow> None)"

definition csv_row :: "(int \<Rightarrow> string) \<Rightarrow> waitlist \<Rightarrow> signup \<Rightarrow> string option list" where
  "csv_row toISOString w s =
     [Some (show_int (position s)), Some (email s), Some (status_text (status s)),
      Some (or_empty (referralSource s))]
       @ map (custom_cell (customData s)) (map key (fields_of w))
       @ [Some (or_empty (map_option toISOString (confirmedAt s))), Some (toISOString (createdAt s))]"

text \<open>
  \<open>row.map((cell) => `"${cell.replace(/"/g, '""')}"`)\<close> for one row and for the rows in
  order, each row joined with commas: \<open>replace\<close> is a method of strings, and on a cell
  that is not a string the call throws a \<open>TypeError\<close>.
\<close>

fun quote_cells :: "string option list \<Rightarrow> error + string list" where
  "quote_cells [] = Inr []"
| "quote_cells (None # cells) = Inl (Thrown ''cell.replace is not a function'')"
| "quote_cells (Some cell # cells) =
     (case quote_cells cells of Inl err \<Rightarrow> Inl err | Inr qs \<Rightarrow> Inr (quote_cell cell # qs))"

fun csv_lines :: "string option list list \<Rightarrow> error + string list" where
  "csv_lines [] = Inr []"
| "csv_lines (row # rows) =
     (case quote_cells row of
        Inl err \<Rightarrow> Inl err
      | Inr qs \<Rightarrow> (case csv_lines rows of Inl err \<Rightarrow> Inl err | Inr ls \<Rightarrow> Inr (join [comma] qs # ls)))"

text \<open>\<open>SELECT * FROM signups WHERE waitlist_id = id ORDER BY position ASC\<close>.\<close>

definition allSignups :: "db \<Rightarrow> string \<Rightarrow> signup list" where
  "allSignups d w_id = sort_key position (filter (\<lambda>s. waitlistId s = w_id) (signups d))"

definition export_csv :: "(int \<Rightarrow> string) \<Rightarrow> db \<Rightarrow> string \<Rightarrow> error + string" where
  "export_csv toISOString d w_id =
     (case find (\<lambda>w. wid w = w_id) (waitlists d) of
        None \<Rightarrow> Inl WaitlistNotFound
      | Some w \<Rightarrow>
          (case csv_lines (map (csv_row toISOString w) (allSignups d w_id)) of
             Inl err \<Rightarrow> Inl err
           | Inr ls \<Rightarrow> Inr (join [newline] (join [comma] (csv_headers w) # ls))))"

section \<open>Reading a CSV file back (RFC 4180)\<close>

text \<open>
  The specification speaks of parsing the export back. This parser follows RFC 4180
  with the line feed as the record separator, as the export writes it: a field is
  either quoted, with a doubled quote standing for a quote, or plain, without any
  quote; after the closing quote of a field comes a comma, a line feed or the end.
  The state \<open>cur\<close> is the field being read, \<open>fs\<close> the fields of the record so far.
\<close>

datatype csv_state = FieldStart | InUnquoted | InQuoted | AfterQuote

fun rfc4180 :: "csv_state \<Rightarrow> string \<Rightarrow> string list \<Rightarrow> string \<Rightarrow> string list list option" where
  "rfc4180 st cur fs [] = (if st = InQuoted then None else Some [fs @ [cur]])"
| "rfc4180 FieldStart cur fs (c # cs) =
     (if c = dquote then rfc4180 InQuoted [] fs cs
      else if c = comma then rfc4180 FieldStart [] (fs @ [cur]) cs
      else if c = newline then map_option ((#) (fs @ [cur])) (rfc4180 FieldStart [] [] cs)
      else rfc4180 InUnquoted [c] fs cs)"
| "rfc4180 InUnquoted cur fs (c # cs) =
     (if c = dquote then None
      else if c = comma then rfc4180 FieldStart [] (fs @ [cur]) cs
      else if c = newline then map_option ((#) (fs @ [cur])) (rfc4180 FieldStart [] [] cs)
      else rfc4180 InUnquoted (cur @ [c]) fs cs)"
| "rfc4180 InQuoted cur fs (c # cs) =
     (if c = dquote then rfc4180 AfterQuote cur fs cs else rfc4180 InQuoted (cur @ [c]) fs cs)"
| "rfc4180 AfterQuote cur fs (c # cs) =
     (if c = dquote then rfc4180 InQuoted (cur @ [dquote]) fs cs
      else if c = comma then rfc4180 FieldStart [] (fs @ [cur]) cs
      else if c = newline then map_option ((#) (fs @ [cur])) (rfc4180 FieldStart [] [] cs)
      else None)"

definition parse_csv :: "string \<Rightarrow> string list list option" where
  "parse_csv s = rfc4180 FieldStart [] [] s"

text \<open>
  A cell is \<open>clean\<close> when it can stand in a file without quotes. The other three
  definitions name the moments of the parser: a field that a comma or a line end may
  close, what the parser returns at the end of a record, and a rest of input that
  ends a line.
\<close>

definition clean :: "string \<Rightarrow> bool" where
  "clean cell = (\<forall>c\<in>set cell. c \<noteq> dquote \<and> c \<noteq> comma \<and> c \<noteq> newline)"

definition field_done :: "csv_state \<Rightarrow> string \<Rightarrow> bool" where
  "field_done st cur = (st = InUnquoted \<or> st = AfterQuote \<or> (st = FieldStart \<and> cur = []))"

definition record_end :: "string list \<Rightarrow> string \<Rightarrow> string list list option" where
  "record_end fs rest =
     (case rest of [] \<Rightarrow> Some [fs] | c # cs \<Rightarrow> map_option ((#) fs) (rfc4180 FieldStart [] [] cs))"

definition line_end :: "string \<Rightarrow> bool" where
  "line_end rest = (rest = [] \<or> (\<exists>cs. rest = newline # cs))"

text \<open>Reading the first three cells of a parsed row back as position, email and status.\<close>

fun digit_value :: "char \<Rightarrow> nat option" where
  "digit_value c =
     (let n = (of_char c :: nat) in if 48 \<le> n \<and> n \<le> 57 then Some (n - 48) else None)"

fun read_nat :: "nat \<Rightarrow> string \<Rightarrow> nat option" where
  "read_nat acc [] = Some acc"
| "read_nat acc (c # cs) =
     (case digit_value c of None \<Rightarrow> None | Some v \<Rightarrow> read_nat (10 * acc + v) cs)"

definition read_int :: "string \<Rightarrow> int option" where
  "read_int s =
     (case s of
        [] \<Rightarrow> None
      | c # cs \<Rightarrow>
          if c = CHR ''-'' then (if cs = [] then None else map_option (\<lambda>n. - int n) (read_nat 0 cs))
          else map_option int (read_nat 0 s))"

definition read_status :: "string \<Rightarrow> status option" where
  "read_status s =
     (if s = ''pending'' then Some Pending
      else if s = ''confirmed'' then Some Confirmed
      else if s = ''invited'' then Some Invited
      else None)"

definition row_triple :: "string list \<Rightarrow> (int option \<times> string \<times> status option)" where
  "row_triple row =
     (case row of
        p # e # st # rest \<Rightarrow> (read_int p, e, read_status st)
      | _ \<Rightarrow> (None, [], None))"

section \<open>The token invariant\<close>

text \<open>A confirmation token is held by pending signups only.\<close>

definition token_inv :: "db \<Rightarrow> bool" where
  "token_inv d = list_all (\<lambda>s. confirmationToken s = None \<or> status s = Pending) (signups d)"

section \<open>A small table for the worked examples\<close>

text \<open>
  One waitlist with double opt-in and three signups: a pending one that holds a
  token, a confirmed one and an invited one.
\<close>

definition beta :: waitlist where
  "beta = \<lparr>wid = ''w1'', name = ''Beta'', slug = ''beta'', logoUrl = None,
           primaryColor = Some ''#6366f1'', doubleOptIn = Some True, redirectUrl = None,
           customFields = Some [], notifyOnSignup = Some True, notifyEmail = None,
           webhookUrl = None, allowedOrigins = Some []\<rparr>"

definition ann :: signup where
  "ann = \<lparr>sid = ''s1'', waitlistId = ''w1'', email = ''ann@example.com'', position = 1,
          status = Pending, customData = [], referralSource = None, ipAddress = None,
          userAgent = None, confirmationToken = Some ''t1'', confirmedAt = None,
          createdAt = 100\<rparr>"

definition bob :: signup where
  "bob = \<lparr>sid = ''s2'', waitlistId = ''w1'', email = ''bob@example.com'', position = 2,
          status = Confirmed, customData = [], referralSource = Some ''twitter'',
          ipAddress = None, userAgent = None, confirmationToken = None,
          confirmedAt = Some 250, createdAt = 200\<rparr>"

definition cyd :: signup where
  "cyd = \<lparr>sid = ''s3'', waitlistId = ''w1'', email = ''cyd@example.com'', position = 3,
          status = Invited, customData = [], referralSource = None, ipAddress = None,
          userAgent = None, confirmationToken = None, confirmedAt = Some 350,
          createdAt = 300\<rparr>"

definition example_db :: db where
  "example_db = \<lparr>waitlists = [beta], signups = [ann, bob, cyd]\<rparr>"

definition env_on :: env where
  "env_on = \<lparr>RESEND_API_KEY = Some ''re_test'', RESEND_FROM_EMAIL = Some ''hello@example.com'',
               DEMO_MODE = None\<rparr>"

definition env_off :: env where
  "env_off = \<lparr>RESEND_API_KEY = None, RESEND_FROM_EMAIL = None, DEMO_MODE = None\<rparr>"

definition provider_ok :: provider where
  "provider_ok = \<lparr>confirmationSend = Delivered, welcomeSend = Delivered, adminSend = Delivered\<rparr>"

definition provider_down :: provider where
  "provider_down = \<lparr>confirmationSend = Raised ''fetch failed'', welcomeSend = Raised ''fetch failed'',
                    adminSend = Raised ''fetch failed''\<rparr>"

definition provider_refusing :: provider where
  "provider_refusing = \<lparr>confirmationSend = Refused, welcomeSend = Refused, adminSend = Refused\<rparr>"

text \<open>The example table after an admin has set the pending signup to confirmed.\<close>

definition patched_db :: db where
  "patched_db =
     \<lparr>waitlists = [beta],
      signups = [ann\<lparr>status := Confirmed, confirmedAt := Some 9\<rparr>, bob, cyd]\<rparr>"

text \<open>
  A second waitlist without double opt-in and with one required custom field, its
  first signup, and a request from a new address.
\<close>

definition open_list :: waitlist where
  "open_list = \<lparr>wid = ''w2'', name = ''Open'', slug = ''open'', logoUrl = None,
                primaryColor = Some ''#6366f1'', doubleOptIn = Some False, redirectUrl = None,
                customFields = Some [\<lparr>key = ''company'', label = ''Company'', required = True\<rparr>],
                notifyOnSignup = Some True, notifyEmail = None,
                webhookUrl = None, allowedOrigins = Some []\<rparr>"

definition dee :: signup where
  "dee = \<lparr>sid = ''s4'', waitlistId = ''w2'', email = ''dee@example.com'', position = 1,
          status = Confirmed, customData = [(''company'', ''Initech'')], referralSource = None,
          ipAddress = None, userAgent = None, confirmationToken = None,
          confirmedAt = Some 400, createdAt = 400\<rparr>"

definition two_lists :: db where
  "two_lists = \<lparr>waitlists = [beta, open_list], signups = [ann, bob, cyd, dee]\<rparr>"

definition eve_body :: signup_body where
  "eve_body = \<lparr>b_email = ''Eve@Example.com'',
               b_customData = Some (map_of [(''company'', '' Acme'')]),
               b_referralSource = None\<rparr>"

definition eve_ctx :: request_ctx where
  "eve_ctx = \<lparr>clientIp = Some ''203.0.113.7'', userAgentHeader = None, newId = ''s5'',
              newToken = ''c0ffee'', now_ms = 7000, insert_ms = 7002, rl_now0 = 6990,
              rl_now = 6990\<rparr>"

text \<open>
  The verdict of the library's \<open>email()\<close> at the two addresses of the examples; every
  other string is left refused, which the examples never reach.
\<close>

definition example_zod_email :: "string \<Rightarrow> bool" where
  "example_zod_email s = (s = ''Eve@Example.com'' \<or> s = ''fay@example.com'')"

definition fay_body :: signup_body where
  "fay_body = \<lparr>b_email = ''fay@example.com'', b_customData = None, b_referralSource = Some ''producthunt''\<rparr>"

text \<open>
  A table for the ten-day example: the waitlist \<open>beta\<close> with one signup on the third
  day and one on the seventh day of the range of days 0 to 9.
\<close>

definition gus :: signup where
  "gus = \<lparr>sid = ''s6'', waitlistId = ''w1'', email = ''gus@example.com'', position = 1,
          status = Pending, customData = [], referralSource = None, ipAddress = None,
          userAgent = None, confirmationToken = Some ''t6'', confirmedAt = None,
          createdAt = 2 * 86400 + 3600\<rparr>"

definition hal :: signup where
  "hal = \<lparr>sid = ''s7'', waitlistId = ''w1'', email = ''hal@example.com'', position = 2,
          status = Confirmed, customData = [], referralSource = None, ipAddress = None,
          userAgent = None, confirmationToken = None, confirmedAt = Some (6 * 86400 + 90),
          createdAt = 6 * 86400 + 30\<rparr>"

definition stats_db :: db where
  "stats_db = \<lparr>waitlists = [beta], signups = [gus, hal]\<rparr>"

text \<open>
  A waitlist whose custom field key begins with a double quote (the dashboard derives
  such a key from a label that begins with one), and its one signup.
\<close>

definition quoted_list :: waitlist where
  "quoted_list = \<lparr>wid = ''w3'', name = ''Quoted'', slug = ''quoted'', logoUrl = None,
                  primaryColor = None, doubleOptIn = Some False, redirectUrl = None,
                  customFields = Some [\<lparr>key = [dquote, CHR ''x''], label = [dquote, CHR ''X''],
                                        required = False\<rparr>],
                  notifyOnSignup = Some True, notifyEmail = None,
                  webhookUrl = None, allowedOrigins = Some []\<rparr>"

definition ivy :: signup where
  "ivy = \<lparr>sid = ''s8'', waitlistId = ''w3'', email = ''ivy@example.com'', position = 1,
          status = Confirmed, customData = [], referralSource = None, ipAddress = None,
          userAgent = None, confirmationToken = None, confirmedAt = Some 500, createdAt = 500\<rparr>"

definition quoted_db :: db where
  "quoted_db = \<lparr>waitlists = [quoted_list], signups = [ivy]\<rparr>"

chapter \<open>Theorems\<close>

section \<open>Origin matcher\<close>

lemma toLowerCase_wild: "toLowerCase ''*.example.com'' = ''*.example.com''"
  by (simp add: toLowerCase_def lower_char_def)

lemma trim_wild: "trim ''*.example.com'' = ''*.example.com''"
  by (simp add: trim_def is_space_def)

lemma toLowerCase_sub: "toLowerCase ''a.example.com'' = ''a.example.com''"
  by (simp add: toLowerCase_def lower_char_def)

lemma toLowerCase_apex: "toLowerCase ''example.com'' = ''example.com''"
  by (simp add: toLowerCase_def lower_char_def)

text \<open>
  C6 (as the code has it). With the pattern list \<open>[*.example.com]\<close> the matcher allows
  \<open>https://a.example.com\<close> and it also allows the bare apex \<open>https://example.com\<close>: the
  wildcard branch accepts a host equal to the domain after \<open>*.\<close> as well as a host
  ending in \<open>.\<close> followed by that domain. With the empty pattern list every origin is
  allowed, whatever the parser does with it.
\<close>

theorem isOriginAllowed_wildcard:
  assumes sub: "URL ''https://a.example.com''
                  = Some \<lparr>host = ''a.example.com'', origin = ''https://a.example.com''\<rparr>"
      and apex: "URL ''https://example.com''
                  = Some \<lparr>host = ''example.com'', origin = ''https://example.com''\<rparr>"
  shows "isOriginAllowed URL ''https://a.example.com'' [''*.example.com'']
       \<and> isOriginAllowed URL ''https://example.com'' [''*.example.com'']
       \<and> (\<forall>orig. isOriginAllowed URL orig [])"
proof -
  have a: "isOriginAllowed URL ''https://a.example.com'' [''*.example.com'']"
    by (simp add: isOriginAllowed_def sub pattern_matches_def toLowerCase_wild trim_wild
        toLowerCase_sub startsWith_def endsWith_def)
  have b: "isOriginAllowed URL ''https://example.com'' [''*.example.com'']"
    by (simp add: isOriginAllowed_def apex pattern_matches_def toLowerCase_wild trim_wild
        toLowerCase_apex startsWith_def)
  have c: "\<forall>orig. isOriginAllowed URL orig []"
    by (simp add: isOriginAllowed_def)
  from a b c show ?thesis by blast
qed

theorem isOriginAllowed_wildcard_witness:
  "isOriginAllowed example_URL ''https://a.example.com'' [''*.example.com'']
   \<and> isOriginAllowed example_URL ''https://example.com'' [''*.example.com'']
   \<and> (\<forall>orig. isOriginAllowed example_URL orig [])"
  using isOriginAllowed_wildcard [of example_URL] by (simp add: example_URL_def)

text \<open>
  The claim as the specification words it says that the apex is refused under the
  wildcard pattern. At the apex origin the matcher answers \<open>True\<close>.
\<close>

theorem isOriginAllowed_apex_counterexample:
  "isOriginAllowed example_URL ''https://example.com'' [''*.example.com''] = True"
  by (simp add: isOriginAllowed_def example_URL_def pattern_matches_def toLowerCase_wild
      trim_wild toLowerCase_apex startsWith_def)

section \<open>Rate limiter\<close>

lemma cleanup_lookup:
  "fmlookup (cleanupExpiredIfNeeded now0 st) k =
     (if fcard (fmdom st) > 1000 \<and> expired st now0 k then None else fmlookup st k)"
  by (simp add: cleanupExpiredIfNeeded_def)

lemma step_fresh:
  assumes "fmlookup st k = None \<or> expired st now k"
  shows "fmlookup (store (rateLimit w mx k now0 now st)) k = Some \<lparr>count = 1, resetAt = now + w\<rparr>"
    and "1 \<le> mx \<Longrightarrow> outcome (rateLimit w mx k now0 now st) = Inr ()"
  using assms
  by (auto simp: rateLimit_def Let_def cleanup_lookup expired_def split: option.splits)

lemma step_within:
  assumes "fmlookup st k = Some \<lparr>count = n, resetAt = r\<rparr>" "now0 \<le> now" "now \<le> r"
  shows "fmlookup (store (rateLimit w mx k now0 now st)) k = Some \<lparr>count = n + 1, resetAt = r\<rparr>"
    and "outcome (rateLimit w mx k now0 now st) = (if n + 1 \<le> mx then Inr () else Inl RateLimited)"
    and "mx < n + 1 \<Longrightarrow> map_of (headers (rateLimit w mx k now0 now st)) ''Retry-After'' = Some (ceil_div (r - now) 1000)"
  using assms
  by (auto simp: rateLimit_def Let_def cleanup_lookup expired_def split: option.splits)

lemma step_other:
  assumes "k' \<noteq> k" "fmlookup st k = Some v" "now0 \<le> resetAt v"
  shows "fmlookup (store (rateLimit w mx k' now0 now st)) k = Some v"
  using assms
  by (auto simp: rateLimit_def Let_def cleanup_lookup expired_def split: option.splits)

lemma length_serve: "length (serve qs st) = length qs"
  by (induction qs arbitrary: st) (auto simp: Let_def)

lemma hits_Nil: "hits k [] = 0"
  by (simp add: hits_def)

lemma hits_Cons: "hits k (q # qs) = (if signup_key (fst q) = k then 1 else 0) + hits k qs"
  by (simp add: hits_def)

lemma serve_run:
  assumes "fmlookup st k = Some \<lparr>count = n, resetAt = r\<rparr>"
    and "\<forall>q\<in>set qs. fst (snd q) \<le> snd (snd q) \<and> snd (snd q) \<le> r"
    and "i < length qs"
  shows "fmlookup (store (serve qs st ! i)) k
           = Some \<lparr>count = n + int (hits k (take (Suc i) qs)), resetAt = r\<rparr>
       \<and> (signup_key (fst (qs ! i)) = k \<longrightarrow>
            outcome (serve qs st ! i)
              = (if n + int (hits k (take (Suc i) qs)) \<le> 10 then Inr () else Inl RateLimited)
          \<and> (10 < n + int (hits k (take (Suc i) qs)) \<longrightarrow>
               map_of (headers (serve qs st ! i)) ''Retry-After''
                 = Some (ceil_div (r - snd (snd (qs ! i))) 1000)))"
  using assms
proof (induction qs arbitrary: st n i)
  case Nil
  then show ?case by simp
next
  case (Cons q qs)
  obtain ip now0 now where q: "q = (ip, now0, now)" by (cases q) auto
  let ?out = "signupRateLimit ip now0 now st"
  let ?d = "if signup_key ip = k then 1 else (0::int)"
  from Cons.prems(2) q have t: "now0 \<le> now" "now \<le> r" by auto
  have look: "fmlookup (store ?out) k = Some \<lparr>count = n + ?d, resetAt = r\<rparr>"
  proof (cases "signup_key ip = k")
    case True
    then show ?thesis
      using step_within(1)[OF _ t, of st k n] Cons.prems(1) by (simp add: signupRateLimit_def)
  next
    case False
    then show ?thesis
      using step_other[of "signup_key ip" k st _ now0] Cons.prems(1) t
      by (simp add: signupRateLimit_def)
  qed
  show ?case
  proof (cases i)
    case 0
    have "signup_key ip = k \<Longrightarrow> outcome ?out = (if n + 1 \<le> 10 then Inr () else Inl RateLimited)"
      using step_within(2)[OF _ t, of st k n] Cons.prems(1) by (simp add: signupRateLimit_def)
    moreover have "signup_key ip = k \<Longrightarrow> 10 < n + 1 \<Longrightarrow>
        map_of (headers ?out) ''Retry-After'' = Some (ceil_div (r - now) 1000)"
      using step_within(3)[OF _ t, of st k n] Cons.prems(1) by (simp add: signupRateLimit_def)
    ultimately show ?thesis using 0 look q by (simp add: Let_def hits_Cons hits_Nil)
  next
    case (Suc j)
    from Cons.prems Suc have j: "j < length qs" by simp
    from Cons.prems(2) have rest: "\<forall>q\<in>set qs. fst (snd q) \<le> snd (snd q) \<and> snd (snd q) \<le> r" by simp
    have "n + ?d + int (hits k (take (Suc j) qs)) = n + int (hits k (take (Suc (Suc j)) (q # qs)))"
      using q by (simp add: hits_Cons)
    then show ?thesis
      using Cons.IH[OF look rest j] Suc q by (simp add: Let_def)
  qed
qed

text \<open>
  C7. The signup limiter allows 10 requests per address in a window of 60 minutes. A
  request from an address with no live record opens a window at its time \<open>t0\<close>. Of the
  requests that follow within the window (those of other addresses in between
  included), the one that is the \<open>n\<close>-th from the address is let through exactly when
  \<open>n \<le> 10\<close>; the 11th and later ones are refused with \<open>RATE_LIMITED\<close>, status 429, and
  a \<open>Retry-After\<close> header holding the rest of the window in seconds, rounded up. A
  request from the address after the window has passed is let through and opens a
  window of its own with count 1.
\<close>

theorem signup_rate_limit_window:
  assumes fresh: "fmlookup st (signup_key ip) = None \<or> expired st t0 (signup_key ip)"
    and within: "\<forall>q\<in>set rest. fst (snd q) \<le> snd (snd q) \<and> snd (snd q) \<le> t0 + 3600000"
    and i: "i < length ((ip, c0, t0) # rest)"
    and same: "signup_key (fst (((ip, c0, t0) # rest) ! i)) = signup_key ip"
    and late: "t0 + 3600000 < t'"
  shows "outcome (serve ((ip, c0, t0) # rest) st ! i)
           = (if hits (signup_key ip) (take (Suc i) ((ip, c0, t0) # rest)) \<le> 10 then Inr ()
              else Inl (AppError 429 ''RATE_LIMITED'' ''Too many requests. Please try again later.''))
       \<and> (10 < hits (signup_key ip) (take (Suc i) ((ip, c0, t0) # rest)) \<longrightarrow>
           map_of (headers (serve ((ip, c0, t0) # rest) st ! i)) ''Retry-After''
             = Some (ceil_div (t0 + 3600000 - snd (snd (((ip, c0, t0) # rest) ! i))) 1000))
       \<and> outcome (signupRateLimit ip c' t' (store (last (serve ((ip, c0, t0) # rest) st)))) = Inr ()
       \<and> fmlookup (store (signupRateLimit ip c' t' (store (last (serve ((ip, c0, t0) # rest) st)))))
           (signup_key ip) = Some \<lparr>count = 1, resetAt = t' + 3600000\<rparr>"
proof -
  let ?k = "signup_key ip"
  let ?r = "t0 + 3600000"
  let ?o = "signupRateLimit ip c0 t0 st"
  have first: "fmlookup (store ?o) ?k = Some \<lparr>count = 1, resetAt = ?r\<rparr>" "outcome ?o = Inr ()"
    using step_fresh[OF fresh, where w = "60 * 60 * 1000" and mx = 10 and ?now0.0 = c0]
    by (simp_all add: signupRateLimit_def)
  have run: "j < length rest \<Longrightarrow>
      fmlookup (store (serve rest (store ?o) ! j)) ?k
           = Some \<lparr>count = 1 + int (hits ?k (take (Suc j) rest)), resetAt = ?r\<rparr>
       \<and> (signup_key (fst (rest ! j)) = ?k \<longrightarrow>
            outcome (serve rest (store ?o) ! j)
              = (if 1 + int (hits ?k (take (Suc j) rest)) \<le> 10 then Inr () else Inl RateLimited)
          \<and> (10 < 1 + int (hits ?k (take (Suc j) rest)) \<longrightarrow>
               map_of (headers (serve rest (store ?o) ! j)) ''Retry-After''
                 = Some (ceil_div (?r - snd (snd (rest ! j))) 1000)))" for j
    using serve_run[OF first(1) within] by blast
  have p1: "outcome (serve ((ip, c0, t0) # rest) st ! i)
           = (if hits ?k (take (Suc i) ((ip, c0, t0) # rest)) \<le> 10 then Inr ()
              else Inl (AppError 429 ''RATE_LIMITED'' ''Too many requests. Please try again later.''))"
  proof (cases i)
    case 0
    then show ?thesis using first(2) by (simp add: Let_def hits_Cons hits_Nil)
  next
    case (Suc j)
    with i same have "j < length rest" "signup_key (fst (rest ! j)) = ?k" by simp_all
    with run[of j] Suc show ?thesis
      by (simp add: Let_def hits_Cons RateLimited_def)
  qed
  have p2: "10 < hits ?k (take (Suc i) ((ip, c0, t0) # rest)) \<longrightarrow>
           map_of (headers (serve ((ip, c0, t0) # rest) st ! i)) ''Retry-After''
             = Some (ceil_div (?r - snd (snd (((ip, c0, t0) # rest) ! i))) 1000)"
  proof (cases i)
    case 0
    then show ?thesis by (simp add: hits_Cons hits_Nil)
  next
    case (Suc j)
    with i same have "j < length rest" "signup_key (fst (rest ! j)) = ?k" by simp_all
    with run[of j] Suc show ?thesis
      by (simp add: Let_def hits_Cons)
  qed
  have final: "\<exists>n. fmlookup (store (last (serve ((ip, c0, t0) # rest) st))) ?k
                  = Some \<lparr>count = n, resetAt = ?r\<rparr>"
  proof (cases "rest = []")
    case True
    then show ?thesis using first(1) by (simp add: Let_def)
  next
    case False
    then have l: "length rest - 1 < length rest" by simp
    have ne: "serve rest (store ?o) \<noteq> []"
      using False length_serve[of rest "store ?o"] by auto
    have "last (serve ((ip, c0, t0) # rest) st) = last (serve rest (store ?o))"
      using ne by (simp add: Let_def)
    also have "\<dots> = serve rest (store ?o) ! (length rest - 1)"
      using ne by (simp add: last_conv_nth length_serve)
    finally have "last (serve ((ip, c0, t0) # rest) st) = serve rest (store ?o) ! (length rest - 1)" .
    then show ?thesis using run[OF l] by simp
  qed
  then have exp: "expired (store (last (serve ((ip, c0, t0) # rest) st))) t' ?k"
    using late by (auto simp: expired_def)
  have p3: "outcome (signupRateLimit ip c' t' (store (last (serve ((ip, c0, t0) # rest) st)))) = Inr ()"
    using step_fresh(2)[OF disjI2, OF exp, where w = "60 * 60 * 1000" and mx = 10 and ?now0.0 = c']
    by (simp add: signupRateLimit_def)
  have p4: "fmlookup (store (signupRateLimit ip c' t' (store (last (serve ((ip, c0, t0) # rest) st)))))
           ?k = Some \<lparr>count = 1, resetAt = t' + 3600000\<rparr>"
    using step_fresh(1)[OF disjI2, OF exp, where w = "60 * 60 * 1000" and ?now0.0 = c']
    by (simp add: signupRateLimit_def)
  from p1 p2 p3 p4 show ?thesis by blast
qed

lemma burst_within: "\<forall>q\<in>set burst_rest. fst (snd q) \<le> snd (snd q) \<and> snd (snd q) \<le> 0 + 3600000"
  by (simp add: burst_rest_def)

theorem signup_rate_limit_window_witness:
  "outcome (serve ((Some ''203.0.113.7'', 0, 0) # burst_rest) fmempty ! 10) = Inr ()
   \<and> outcome (serve ((Some ''203.0.113.7'', 0, 0) # burst_rest) fmempty ! 11)
        = Inl (AppError 429 ''RATE_LIMITED'' ''Too many requests. Please try again later.'')
   \<and> map_of (headers (serve ((Some ''203.0.113.7'', 0, 0) # burst_rest) fmempty ! 11)) ''Retry-After''
        = Some 3590
   \<and> outcome (signupRateLimit (Some ''203.0.113.7'') 3600001 3600001
         (store (last (serve ((Some ''203.0.113.7'', 0, 0) # burst_rest) fmempty)))) = Inr ()"
proof -
  have k: "signup_key (Some ''198.51.100.2'') \<noteq> signup_key (Some ''203.0.113.7'')"
    by (simp add: signup_key_def)
  have h10: "hits (signup_key (Some ''203.0.113.7'')) (take (Suc 10) ((Some ''203.0.113.7'', 0, 0) # burst_rest)) = 10"
    using k by (simp add: burst_rest_def hits_def)
  have h11: "hits (signup_key (Some ''203.0.113.7'')) (take (Suc 11) ((Some ''203.0.113.7'', 0, 0) # burst_rest)) = 11"
    using k by (simp add: burst_rest_def hits_def)
  have s10: "signup_key (fst (((Some ''203.0.113.7'', 0, 0) # burst_rest) ! 10)) = signup_key (Some ''203.0.113.7'')"
    by (simp add: burst_rest_def)
  have s11: "signup_key (fst (((Some ''203.0.113.7'', 0, 0) # burst_rest) ! 11)) = signup_key (Some ''203.0.113.7'')"
    by (simp add: burst_rest_def)
  have t11: "snd (snd (((Some ''203.0.113.7'', 0, 0) # burst_rest) ! 11)) = 10000"
    by (simp add: burst_rest_def)
  have fresh: "fmlookup fmempty (signup_key (Some ''203.0.113.7'')) = None
               \<or> expired fmempty 0 (signup_key (Some ''203.0.113.7''))"
    by simp
  have l10: "10 < length ((Some ''203.0.113.7'', 0::int, 0::int) # burst_rest)"
    by (simp add: burst_rest_def)
  have l11: "11 < length ((Some ''203.0.113.7'', 0::int, 0::int) # burst_rest)"
    by (simp add: burst_rest_def)
  have late: "(0::int) + 3600000 < 3600001" by simp
  from signup_rate_limit_window[OF fresh burst_within l10 s10 late, of 3600001]
       signup_rate_limit_window[OF fresh burst_within l11 s11 late, of 3600001]
  show ?thesis
    unfolding h10 h11 t11 by (simp add: ceil_div_def)
qed

section \<open>Rows and primary keys\<close>

lemma find_SomeD: "find P xs = Some x \<Longrightarrow> P x \<and> x \<in> set xs"
  by (induction xs) (auto split: if_splits)

lemma find_pk:
  assumes "distinct (map sid xs)" "find P xs = Some sg" "s \<in> set xs" "sid s = sid sg"
  shows "s = sg"
proof -
  from assms(2) have "sg \<in> set xs" using find_SomeD by fastforce
  with assms(1,3,4) show ?thesis by (meson distinct_map inj_onD)
qed

lemma row_by_id:
  assumes found: "find (\<lambda>s. sid s = signupId \<and> Q s) xs = Some sg"
      and pk: "distinct (map sid xs)"
      and s: "s \<in> set xs"
  shows "(sid s = signupId) = (s = sg)"
proof
  have sg: "sid sg = signupId" using find_SomeD[OF found] by simp
  { assume "sid s = signupId"
    then have "sid s = sid sg" using sg by simp
    then show "s = sg" by (rule find_pk[OF pk found s]) }
  { assume "s = sg"
    then show "sid s = signupId" using sg by simp }
qed

lemma update_signups_simps:
  "signups (update_signups q f d) = map (\<lambda>s. if q s then f s else s) (signups d)"
  "waitlists (update_signups q f d) = waitlists d"
  by (simp_all add: update_signups_def)

section \<open>Admin status patch\<close>

text \<open>
  C10. The admin status patch of a signup found by \<open>(signupId, id)\<close> rewrites that one
  row and no other, and in that row only \<open>status\<close> and \<open>confirmedAt\<close>: every other
  field keeps its value. \<open>confirmedAt\<close> receives the current time exactly when the new
  status is \<open>confirmed\<close> and the row had no \<open>confirmedAt\<close>; otherwise it keeps what it
  had, so confirming a confirmed signup again keeps the first time stamp and a reset
  to \<open>pending\<close> leaves \<open>confirmedAt\<close> alone. The table of waitlists is not written, and
  a patch without a status writes nothing.
\<close>

theorem patch_signup_frame:
  assumes found: "find (\<lambda>s. sid s = signupId \<and> waitlistId s = w_id) (signups d) = Some sg"
      and pk: "distinct (map sid (signups d))"
  shows "signups (db_after (patch_signup now d w_id signupId (Some st)))
           = map (\<lambda>s. if s = sg
                       then sg\<lparr>status := st,
                              confirmedAt := (if st = Confirmed \<and> confirmedAt sg = None
                                              then Some (to_seconds now) else confirmedAt sg)\<rparr>
                       else s) (signups d)
       \<and> waitlists (db_after (patch_signup now d w_id signupId (Some st))) = waitlists d
       \<and> db_after (patch_signup now d w_id signupId None) = d"
proof -
  have m: "map (\<lambda>s. if sid s = signupId then g s else s) (signups d)
        = map (\<lambda>s. if s = sg then g sg else s) (signups d)" for g :: "signup \<Rightarrow> signup"
    using row_by_id[OF found pk] by (intro map_cong) auto
  have none: "db_after (patch_signup now d w_id signupId None) = d"
    unfolding patch_signup_def found by (simp add: reply_ok_def)
  have wl: "waitlists (db_after (patch_signup now d w_id signupId (Some st))) = waitlists d"
    unfolding patch_signup_def found by (simp add: reply_ok_def Let_def update_signups_simps)
  have rows: "signups (db_after (patch_signup now d w_id signupId (Some st)))
           = map (\<lambda>s. if s = sg
                       then sg\<lparr>status := st,
                              confirmedAt := (if st = Confirmed \<and> confirmedAt sg = None
                                              then Some (to_seconds now) else confirmedAt sg)\<rparr>
                       else s) (signups d)"
  proof -
    let ?G = "\<lambda>s. if st = Confirmed \<and> confirmedAt sg = None
                   then s\<lparr>status := st, confirmedAt := Some (to_seconds now)\<rparr>
                   else s\<lparr>status := st\<rparr>"
    have "signups (db_after (patch_signup now d w_id signupId (Some st)))
            = map (\<lambda>s. if sid s = signupId then ?G s else s) (signups d)"
      unfolding patch_signup_def found by (simp add: reply_ok_def update_signups_simps Let_def)
    also have "\<dots> = map (\<lambda>s. if s = sg then ?G sg else s) (signups d)"
      by (rule m)
    also have "?G sg = sg\<lparr>status := st,
                              confirmedAt := (if st = Confirmed \<and> confirmedAt sg = None
                                              then Some (to_seconds now) else confirmedAt sg)\<rparr>"
      by simp
    finally show ?thesis .
  qed
  from rows wl none show ?thesis by blast
qed

lemma example_pk: "distinct (map sid (signups example_db))"
  by (simp add: example_db_def ann_def bob_def cyd_def)

theorem patch_signup_frame_witness:
  "signups (db_after (patch_signup 9000 example_db ''w1'' ''s2'' (Some Confirmed))) = [ann, bob, cyd]
   \<and> signups (db_after (patch_signup 9000 example_db ''w1'' ''s2'' (Some Pending)))
        = [ann, bob\<lparr>status := Pending\<rparr>, cyd]
   \<and> signups (db_after (patch_signup 9000 example_db ''w1'' ''s1'' (Some Confirmed)))
        = [ann\<lparr>status := Confirmed, confirmedAt := Some 9\<rparr>, bob, cyd]
   \<and> db_after (patch_signup 9000 example_db ''w1'' ''s1'' None) = example_db"
proof -
  have f1: "find (\<lambda>s. sid s = ''s1'' \<and> waitlistId s = ''w1'') (signups example_db) = Some ann"
    by (simp add: example_db_def ann_def)
  have f2: "find (\<lambda>s. sid s = ''s2'' \<and> waitlistId s = ''w1'') (signups example_db) = Some bob"
    by (simp add: example_db_def ann_def bob_def)
  have ne: "ann \<noteq> bob" "cyd \<noteq> bob" "bob \<noteq> ann" "cyd \<noteq> ann"
    by (simp_all add: ann_def bob_def cyd_def)
  have b: "status bob = Confirmed" "confirmedAt bob = Some 250" "confirmedAt ann = None"
    by (simp_all add: bob_def ann_def)
  have rows: "signups example_db = [ann, bob, cyd]" by (simp add: example_db_def)
  from patch_signup_frame[OF f2 example_pk, of 9000 Confirmed]
       patch_signup_frame[OF f2 example_pk, of 9000 Pending]
       patch_signup_frame[OF f1 example_pk, of 9000 Confirmed]
  show ?thesis
    unfolding rows using ne b by (simp add: to_seconds_def)
qed

section \<open>Token confirmation\<close>

lemma find_unique:
  assumes "x \<in> set xs" "P x" "\<forall>s\<in>set xs. P s \<longrightarrow> s = x"
  shows "find P xs = Some x"
  using assms
proof (induction xs)
  case Nil
  then show ?case by simp
next
  case (Cons a xs)
  show ?case
  proof (cases "P a")
    case True
    with Cons.prems(3) have "a = x" by simp
    with True show ?thesis by simp
  next
    case False
    with Cons.prems(1,2) have "x \<in> set xs" by auto
    moreover from Cons.prems(3) have "\<forall>s\<in>set xs. P s \<longrightarrow> s = x" by simp
    ultimately have "find P xs = Some x" using Cons.IH Cons.prems(2) by blast
    with False show ?thesis by simp
  qed
qed

lemma find_None_iff': "find P xs = None \<longleftrightarrow> (\<forall>s\<in>set xs. \<not> P s)"
  by (induction xs) auto

text \<open>
  C1. In a waitlist found by its slug, let a pending signup hold the token \<open>t\<close>, and
  let no other signup of the waitlist hold \<open>t\<close>. A confirm request with \<open>t\<close> rewrites
  that row and no other: status \<open>confirmed\<close>, \<open>confirmedAt\<close> the current time, token
  null; it answers with the redirect when the waitlist has one and else with the
  success message and the signup's position. A second confirm request with \<open>t\<close> on the
  tables the first one left fails with 404 \<open>NOT_FOUND\<close> and writes nothing. Whenever
  the signup that the token lookup returns is already confirmed or invited, the
  handler writes nothing and answers with the redirect or the already-confirmed
  message and the signup's position.
\<close>

theorem confirm_token_single_use:
  assumes wl: "find (\<lambda>w. slug w = sl) (waitlists d) = Some w"
      and pk: "distinct (map sid (signups d))"
      and mem: "sg \<in> set (signups d)" "waitlistId sg = wid w" "confirmationToken sg = Some t"
      and pending: "status sg = Pending"
      and uniq: "\<forall>s\<in>set (signups d). waitlistId s = wid w \<and> confirmationToken s = Some t \<longrightarrow> s = sg"
  shows "signups (db_after (confirm_handler e p now d sl t))
           = map (\<lambda>s. if s = sg
                       then sg\<lparr>status := Confirmed, confirmedAt := Some (to_seconds now),
                              confirmationToken := None\<rparr>
                       else s) (signups d)
       \<and> waitlists (db_after (confirm_handler e p now d sl t)) = waitlists d
       \<and> result (confirm_handler e p now d sl t)
           = Inr (redirect_or w (ConfirmJson ''Your email has been confirmed!'' (position sg)))
       \<and> result (confirm_handler e' p' now' (db_after (confirm_handler e p now d sl t)) sl t)
           = Inl (AppError 404 ''NOT_FOUND'' ''Confirmation link not found'')
       \<and> db_after (confirm_handler e' p' now' (db_after (confirm_handler e p now d sl t)) sl t)
           = db_after (confirm_handler e p now d sl t)
       \<and> (\<forall>d2 w2 s2. find (\<lambda>w. slug w = sl) (waitlists d2) = Some w2
              \<and> find (\<lambda>s. waitlistId s = wid w2 \<and> confirmationToken s = Some t) (signups d2) = Some s2
              \<and> (status s2 = Confirmed \<or> status s2 = Invited)
            \<longrightarrow> db_after (confirm_handler e p now d2 sl t) = d2
              \<and> result (confirm_handler e p now d2 sl t)
                  = Inr (redirect_or w2 (ConfirmJson ''Your email is already confirmed.'' (position s2))))"
proof -
  let ?P = "\<lambda>s. waitlistId s = wid w \<and> confirmationToken s = Some t"
  let ?f = "\<lambda>s. s\<lparr>status := Confirmed, confirmedAt := Some (to_seconds now), confirmationToken := None\<rparr>"
  let ?r = "confirm_handler e p now d sl t"
  have found: "find ?P (signups d) = Some sg"
    by (rule find_unique[OF mem(1) _ uniq]) (simp add: mem)
  have byid: "s \<in> set (signups d) \<Longrightarrow> (sid s = sid sg) = (s = sg)" for s
    using pk mem(1) by (meson distinct_map inj_onD)
  have r: "?r = reply_ok (update_signups (\<lambda>s. sid s = sid sg) ?f d)
                  (welcome_and_notify ''[Confirm] Failed to send emails:'' e p w)
                  (redirect_or w (ConfirmJson ''Your email has been confirmed!'' (position sg)))"
    by (simp add: confirm_handler_def wl found pending Let_def)
  have rows: "signups (db_after ?r) = map (\<lambda>s. if s = sg then ?f sg else s) (signups d)"
  proof -
    have "signups (db_after ?r) = map (\<lambda>s. if sid s = sid sg then ?f s else s) (signups d)"
      unfolding r by (simp add: reply_ok_def update_signups_simps)
    also have "\<dots> = map (\<lambda>s. if s = sg then ?f sg else s) (signups d)"
      using byid by (intro map_cong) auto
    finally show ?thesis .
  qed
  have wls: "waitlists (db_after ?r) = waitlists d"
    unfolding r by (simp add: reply_ok_def update_signups_simps)
  have res: "result ?r = Inr (redirect_or w (ConfirmJson ''Your email has been confirmed!'' (position sg)))"
    unfolding r by (simp add: reply_ok_def)
  have gone: "find ?P (signups (db_after ?r)) = None"
  proof -
    have "\<not> ?P s'" if "s' \<in> set (signups (db_after ?r))" for s'
    proof -
      from that obtain s where s: "s \<in> set (signups d)" "s' = (if s = sg then ?f sg else s)"
        unfolding rows by auto
      show ?thesis
      proof (cases "s = sg")
        case True
        with s show ?thesis by simp
      next
        case False
        with s uniq show ?thesis by auto
      qed
    qed
    then show ?thesis unfolding find_None_iff' by blast
  qed
  have wl2: "find (\<lambda>w. slug w = sl) (waitlists (db_after ?r)) = Some w"
    unfolding wls by (rule wl)
  have second: "confirm_handler e' p' now' (db_after ?r) sl t
                  = fail (db_after ?r) [] (NotFound ''Confirmation link'')"
    by (simp add: confirm_handler_def[of e' p' now' "db_after ?r"] wl2 gone)
  have s1: "result (confirm_handler e' p' now' (db_after ?r) sl t)
              = Inl (AppError 404 ''NOT_FOUND'' ''Confirmation link not found'')"
    unfolding second by (simp add: fail_def NotFound_def)
  have s2: "db_after (confirm_handler e' p' now' (db_after ?r) sl t) = db_after ?r"
    unfolding second by (simp add: fail_def)
  have idem: "db_after (confirm_handler e p now d2 sl t) = d2
              \<and> result (confirm_handler e p now d2 sl t)
                  = Inr (redirect_or w2 (ConfirmJson ''Your email is already confirmed.'' (position s2)))"
    if a: "find (\<lambda>w. slug w = sl) (waitlists d2) = Some w2"
      and b: "find (\<lambda>s. waitlistId s = wid w2 \<and> confirmationToken s = Some t) (signups d2) = Some s2"
      and c: "status s2 = Confirmed \<or> status s2 = Invited" for d2 w2 s2
    using c by (auto simp: confirm_handler_def a b reply_ok_def)
  from rows wls res s1 s2 idem show ?thesis by blast
qed

lemma example_rows: "signups example_db = [ann, bob, cyd]" "waitlists example_db = [beta]"
  by (simp_all add: example_db_def)

lemma beta_fields: "slug beta = ''beta''" "wid beta = ''w1''" "redirectUrl beta = None"
  "doubleOptIn beta = Some True" "customFields beta = Some []" "notifyOnSignup beta = Some True"
  by (simp_all add: beta_def)

theorem confirm_token_single_use_witness:
  "signups (db_after (confirm_handler env_on provider_ok 5000 example_db ''beta'' ''t1''))
     = [ann\<lparr>status := Confirmed, confirmedAt := Some 5, confirmationToken := None\<rparr>, bob, cyd]
   \<and> result (confirm_handler env_on provider_ok 5000 example_db ''beta'' ''t1'')
       = Inr (ConfirmJson ''Your email has been confirmed!'' 1)
   \<and> result (confirm_handler env_on provider_ok 6000
         (db_after (confirm_handler env_on provider_ok 5000 example_db ''beta'' ''t1'')) ''beta'' ''t1'')
       = Inl (AppError 404 ''NOT_FOUND'' ''Confirmation link not found'')
   \<and> db_after (confirm_handler env_on provider_ok 5000 patched_db ''beta'' ''t1'') = patched_db
   \<and> result (confirm_handler env_on provider_ok 5000 patched_db ''beta'' ''t1'')
       = Inr (ConfirmJson ''Your email is already confirmed.'' 1)"
proof -
  have wl: "find (\<lambda>w. slug w = ''beta'') (waitlists example_db) = Some beta"
    by (simp add: example_rows beta_fields)
  have pk: "distinct (map sid (signups example_db))"
    by (simp add: example_rows ann_def bob_def cyd_def)
  have mem: "ann \<in> set (signups example_db)" "waitlistId ann = wid beta"
            "confirmationToken ann = Some ''t1''" "status ann = Pending"
    by (simp_all add: example_rows ann_def beta_fields)
  have uniq: "\<forall>s\<in>set (signups example_db).
                waitlistId s = wid beta \<and> confirmationToken s = Some ''t1'' \<longrightarrow> s = ann"
    by (simp add: example_rows bob_def cyd_def)
  have ne: "bob \<noteq> ann" "cyd \<noteq> ann" by (simp_all add: ann_def bob_def cyd_def)
  have red: "redirect_or beta r = r" for r by (simp add: redirect_or_def beta_fields)
  have pos: "position ann = 1" by (simp add: ann_def)
  have wl2: "find (\<lambda>w. slug w = ''beta'') (waitlists patched_db) = Some beta"
    by (simp add: patched_db_def beta_fields)
  have f2: "find (\<lambda>s. waitlistId s = wid beta \<and> confirmationToken s = Some ''t1'') (signups patched_db)
              = Some (ann\<lparr>status := Confirmed, confirmedAt := Some 9\<rparr>)"
    by (simp add: patched_db_def ann_def beta_fields)
  note inst = confirm_token_single_use[OF wl pk mem uniq,
      where e = env_on and p = provider_ok and now = 5000 and e' = env_on and p' = provider_ok
        and now' = 6000]
  from inst have "\<forall>d2 w2 s2. find (\<lambda>w. slug w = ''beta'') (waitlists d2) = Some w2
              \<and> find (\<lambda>s. waitlistId s = wid w2 \<and> confirmationToken s = Some ''t1'') (signups d2) = Some s2
              \<and> (status s2 = Confirmed \<or> status s2 = Invited)
            \<longrightarrow> db_after (confirm_handler env_on provider_ok 5000 d2 ''beta'' ''t1'') = d2
              \<and> result (confirm_handler env_on provider_ok 5000 d2 ''beta'' ''t1'')
                  = Inr (redirect_or w2 (ConfirmJson ''Your email is already confirmed.'' (position s2)))"
    by (elim conjE)
  from this[rule_format, of patched_db beta "ann\<lparr>status := Confirmed, confirmedAt := Some 9\<rparr>"]
  have idem: "db_after (confirm_handler env_on provider_ok 5000 patched_db ''beta'' ''t1'') = patched_db
     \<and> result (confirm_handler env_on provider_ok 5000 patched_db ''beta'' ''t1'')
       = Inr (redirect_or beta (ConfirmJson ''Your email is already confirmed.'' (position ann)))"
    using wl2 f2 by simp
  from inst idem show ?thesis
    unfolding example_rows red using ne pos by (simp add: to_seconds_def)
qed

section \<open>Public status\<close>

lemma count_confirmed_invited:
  "length (filter (\<lambda>s. waitlistId s = k \<and> status s = Confirmed) xs)
     + length (filter (\<lambda>s. waitlistId s = k \<and> status s = Invited) xs)
   = length (filter (\<lambda>s. waitlistId s = k \<and> (status s = Confirmed \<or> status s = Invited)) xs)"
  by (induction xs) auto

text \<open>
  C5 (as the code has it). For a waitlist found by its slug the status handler
  succeeds, and \<open>signupCount\<close> is the number of the waitlist's signups whose status is
  \<open>confirmed\<close>: pending and invited signups are not counted. So the count falls short
  of the number of confirmed or invited signups by the number of invited ones.
\<close>

theorem status_handler_signupCount:
  assumes "find (\<lambda>w. slug w = sl) (waitlists d) = Some w"
  shows "\<exists>r. status_handler d sl = Inr r
           \<and> signupCount r
               = length (filter (\<lambda>s. waitlistId s = wid w \<and> status s = Confirmed) (signups d))
           \<and> signupCount r
               + length (filter (\<lambda>s. waitlistId s = wid w \<and> status s = Invited) (signups d))
               = length (filter (\<lambda>s. waitlistId s = wid w \<and> (status s = Confirmed \<or> status s = Invited))
                   (signups d))"
  using assms count_confirmed_invited[of "wid w" "signups d"] by (simp add: status_handler_def)

theorem status_handler_signupCount_witness:
  "\<exists>r. status_handler example_db ''beta'' = Inr r
       \<and> signupCount r
           = length (filter (\<lambda>s. waitlistId s = wid beta \<and> status s = Confirmed) (signups example_db))
       \<and> signupCount r
           + length (filter (\<lambda>s. waitlistId s = wid beta \<and> status s = Invited) (signups example_db))
           = length (filter (\<lambda>s. waitlistId s = wid beta \<and> (status s = Confirmed \<or> status s = Invited))
               (signups example_db))"
proof -
  have "find (\<lambda>w. slug w = ''beta'') (waitlists example_db) = Some beta"
    by (simp add: example_db_def beta_def)
  from status_handler_signupCount[OF this] show ?thesis .
qed

text \<open>
  The example waitlist has one pending, one confirmed and one invited signup. The
  number of confirmed or invited signups is 2; the status handler returns
  \<open>signupCount = 1\<close>.
\<close>

theorem status_handler_omits_invited:
  "map_sum id signupCount (status_handler example_db ''beta'') = Inr 1
   \<and> length (filter (\<lambda>s. waitlistId s = wid beta \<and> (status s = Confirmed \<or> status s = Invited))
         (signups example_db)) = 2"
  by (simp add: status_handler_def example_db_def beta_def ann_def bob_def cyd_def)

section \<open>Signup: the paths of the handler\<close>

lemma insert_signup_ok:
  assumes "\<forall>x\<in>set (signups d). sid x \<noteq> sid s"
      and "\<forall>x\<in>set (signups d). waitlistId x = waitlistId s \<longrightarrow> email x \<noteq> email s"
  shows "insert_signup s d = Inr (d\<lparr>signups := signups d @ [s]\<rparr>)"
proof -
  have a: "\<not> list_ex (\<lambda>x. sid x = sid s) (signups d)"
    using assms(1) by (simp add: list_ex_iff)
  have b: "\<not> list_ex (\<lambda>x. waitlistId x = waitlistId s \<and> email x = email s) (signups d)"
    using assms(2) by (simp add: list_ex_iff)
  show ?thesis unfolding insert_signup_def using a b by simp
qed

lemma insert_signup_cases:
  "insert_signup s d = Inr d' \<Longrightarrow>
     d' = d\<lparr>signups := signups d @ [s]\<rparr>
     \<and> (\<forall>x\<in>set (signups d). sid x \<noteq> sid s)
     \<and> (\<forall>x\<in>set (signups d). waitlistId x = waitlistId s \<longrightarrow> email x \<noteq> email s)"
  by (auto simp: insert_signup_def list_ex_iff split: if_splits)


lemma signup_handler_new:
  assumes wl: "find (\<lambda>w. slug w = sl) (waitlists d) = Some w"
    and valid: "isValidEmail (normalizeEmail (b_email body))"
    and fields: "collect_custom (fields_of w) (body_value body) [] = Inr cd"
    and new: "find (\<lambda>s. waitlistId s = wid w \<and> email s = normalizeEmail (b_email body)) (signups d) = None"
  shows "signup_handler e p ctx d sl body
           = create_signup e p ctx d w (normalizeEmail (b_email body)) cd (b_referralSource body)"
  by (simp add: signup_handler_def wl valid fields new Let_def)

lemma signup_handler_existing:
  assumes wl: "find (\<lambda>w. slug w = sl) (waitlists d) = Some w"
    and valid: "isValidEmail (normalizeEmail (b_email body))"
    and fields: "collect_custom (fields_of w) (body_value body) [] = Inr cd"
    and old: "find (\<lambda>s. waitlistId s = wid w \<and> email s = normalizeEmail (b_email body)) (signups d) = Some x"
  shows "signup_handler e p ctx d sl body
           = (if status x = Confirmed \<or> status x = Invited then fail d [] AlreadySignedUp
              else if truthy_flag (doubleOptIn w) \<and> status x = Pending \<and> isEmailConfigured e
                then resend_confirmation e p ctx d x
              else fail d [] AlreadySignedUp)"
  by (simp add: signup_handler_def wl valid fields old Let_def)

lemma collect_custom_inherited:
  assumes "b_customData body = Some obj" "obj (key f) = None"
    and "key f \<in> set object_prototype_members"
  shows "collect_custom (f # fs) (body_value body) acc = Inl (Thrown ''value.trim is not a function'')"
  using assms by (simp add: body_value_def property_of_def)

lemma signup_route_passes:
  assumes "demoModeGuard e = None"
    and "dynamicCors URL d sl orig = None"
    and "outcome (signupRateLimit (clientIp ctx) (rl_now0 ctx) (rl_now ctx) st) = Inr ()"
    and "zod_email (b_email body)"
  shows "signup_route URL zod_email e p ctx st d sl orig body
           = (store (signupRateLimit (clientIp ctx) (rl_now0 ctx) (rl_now ctx) st),
              signup_handler e p ctx d sl body)"
  using assms by (simp add: signup_route_def Let_def)


lemma next_position_contiguous:
  assumes "set (waitlist_positions d k) = {1..int (length (waitlist_positions d k))}"
  shows "next_position d k = int (length (waitlist_positions d k)) + 1"
proof -
  let ?ps = "waitlist_positions d k"
  let ?n = "length ?ps"
  show ?thesis
  proof (cases "?ps = []")
    case True
    then show ?thesis by (simp add: next_position_def)
  next
    case False
    then have n: "0 < ?n" by simp
    have "Max {1..int ?n} = int ?n"
      using n by (intro Max_eqI) (auto simp: Suc_le_eq)
    then have "Max (set ?ps) = int ?n" unfolding assms .
    moreover have "int ?n \<noteq> 0" using n by simp
    ultimately show ?thesis using False by (simp add: next_position_def Let_def)
  qed
qed

lemma new_signup_direct:
  "\<not> truthy_flag u \<Longrightarrow>
     new_signup u ctx w pos em cd ref
       = \<lparr>sid = newId ctx, waitlistId = wid w, email = em, position = pos, status = Confirmed,
          customData = cd, referralSource = or_null ref, ipAddress = clientIp ctx,
          userAgent = or_null (userAgentHeader ctx), confirmationToken = None,
          confirmedAt = Some (to_seconds (now_ms ctx)), createdAt = to_seconds (insert_ms ctx)\<rparr>"
  by (simp add: new_signup_def)

lemma new_signup_optin:
  "truthy_flag u \<Longrightarrow>
     new_signup u ctx w pos em cd ref
       = \<lparr>sid = newId ctx, waitlistId = wid w, email = em, position = pos, status = Pending,
          customData = cd, referralSource = or_null ref, ipAddress = clientIp ctx,
          userAgent = or_null (userAgentHeader ctx), confirmationToken = Some (newToken ctx),
          confirmedAt = None, createdAt = to_seconds (insert_ms ctx)\<rparr>"
  by (simp add: new_signup_def)

lemma new_signup_keys:
  "sid (new_signup u ctx w pos em cd ref) = newId ctx"
  "waitlistId (new_signup u ctx w pos em cd ref) = wid w"
  "email (new_signup u ctx w pos em cd ref) = em"
  "position (new_signup u ctx w pos em cd ref) = pos"
  by (simp_all add: new_signup_def)

lemma create_signup_insert:
  assumes fresh: "\<forall>x\<in>set (signups d). sid x \<noteq> newId ctx"
    and new: "\<forall>x\<in>set (signups d). waitlistId x = wid w \<longrightarrow> email x \<noteq> em"
  shows "insert_signup (new_signup u ctx w pos em cd ref) d
           = Inr (d\<lparr>signups := signups d @ [new_signup u ctx w pos em cd ref]\<rparr>)"
  by (rule insert_signup_ok) (simp_all add: new_signup_keys fresh new)

lemma truthy_js_and: "truthy_flag (js_and a b) = (truthy_flag a \<and> b)"
  by (cases "(a, b)" rule: js_and.cases) simp_all

lemma create_signup_direct:
  assumes direct: "\<not> truthy_flag (js_and (doubleOptIn w) (isEmailConfigured e))"
    and fresh: "\<forall>x\<in>set (signups d). sid x \<noteq> newId ctx"
    and new: "\<forall>x\<in>set (signups d). waitlistId x = wid w \<longrightarrow> email x \<noteq> em"
  shows "result (create_signup e p ctx d w em cd ref)
           = Inr \<lparr>r_message = ''You're on the list!'', r_position = next_position d (wid w),
                  r_requiresConfirmation = js_and (doubleOptIn w) (isEmailConfigured e),
                  r_redirectUrl = or_null (redirectUrl w)\<rparr>"
    and "db_after (create_signup e p ctx d w em cd ref)
           = d\<lparr>signups := signups d @
               [\<lparr>sid = newId ctx, waitlistId = wid w, email = em,
                 position = next_position d (wid w), status = Confirmed,
                 customData = cd, referralSource = or_null ref, ipAddress = clientIp ctx,
                 userAgent = or_null (userAgentHeader ctx), confirmationToken = None,
                 confirmedAt = Some (to_seconds (now_ms ctx)),
                 createdAt = to_seconds (insert_ms ctx)\<rparr>]\<rparr>"
    and "logs (create_signup e p ctx d w em cd ref)
           = (if isEmailConfigured e
              then welcome_and_notify ''[Signup] Failed to send welcome/notification email:'' e p w
              else if truthy_flag (doubleOptIn w)
              then [''[Signup] Double opt-in enabled but email not configured, falling back to direct confirmation'']
              else [])"
proof -
  let ?u = "js_and (doubleOptIn w) (isEmailConfigured e)"
  note ins = create_signup_insert[OF fresh new, of ?u "next_position d (wid w)" cd ref]
  note row = new_signup_direct[OF direct, of ctx w "next_position d (wid w)" em cd ref]
  show "result (create_signup e p ctx d w em cd ref)
           = Inr \<lparr>r_message = ''You're on the list!'', r_position = next_position d (wid w),
                  r_requiresConfirmation = ?u, r_redirectUrl = or_null (redirectUrl w)\<rparr>"
    using direct ins by (simp add: create_signup_def Let_def reply_ok_def truthy_js_and)
  show "db_after (create_signup e p ctx d w em cd ref)
           = d\<lparr>signups := signups d @
               [\<lparr>sid = newId ctx, waitlistId = wid w, email = em,
                 position = next_position d (wid w), status = Confirmed,
                 customData = cd, referralSource = or_null ref, ipAddress = clientIp ctx,
                 userAgent = or_null (userAgentHeader ctx), confirmationToken = None,
                 confirmedAt = Some (to_seconds (now_ms ctx)),
                 createdAt = to_seconds (insert_ms ctx)\<rparr>]\<rparr>"
    using direct ins unfolding row[symmetric]
    by (simp add: create_signup_def Let_def reply_ok_def truthy_js_and)
  have "truthy_flag (doubleOptIn w) \<Longrightarrow> \<not> isEmailConfigured e"
    using direct by (simp add: truthy_js_and)
  then show "logs (create_signup e p ctx d w em cd ref)
           = (if isEmailConfigured e
              then welcome_and_notify ''[Signup] Failed to send welcome/notification email:'' e p w
              else if truthy_flag (doubleOptIn w)
              then [''[Signup] Double opt-in enabled but email not configured, falling back to direct confirmation'']
              else [])"
    using direct ins by (auto simp add: create_signup_def Let_def reply_ok_def truthy_js_and)
qed

lemma sendConfirmationEmail_configured:
  "isEmailConfigured e \<Longrightarrow> sendConfirmationEmail e p = thrown (confirmationSend p)"
  by (simp add: sendConfirmationEmail_def isEmailConfigured_def)

lemma create_signup_optin:
  assumes optin: "doubleOptIn w = Some True" "isEmailConfigured e"
    and fresh: "\<forall>x\<in>set (signups d). sid x \<noteq> newId ctx"
    and new: "\<forall>x\<in>set (signups d). waitlistId x = wid w \<longrightarrow> email x \<noteq> em"
  shows "result (create_signup e p ctx d w em cd ref)
           = (case confirmationSend p of
                Raised msg \<Rightarrow> Inl (Thrown msg)
              | _ \<Rightarrow> Inr \<lparr>r_message = ''Please check your email to confirm your spot.'',
                          r_position = next_position d (wid w),
                          r_requiresConfirmation = Some True,
                          r_redirectUrl = or_null (redirectUrl w)\<rparr>)"
    and "db_after (create_signup e p ctx d w em cd ref)
           = d\<lparr>signups := signups d @
               [\<lparr>sid = newId ctx, waitlistId = wid w, email = em,
                 position = next_position d (wid w), status = Pending,
                 customData = cd, referralSource = or_null ref, ipAddress = clientIp ctx,
                 userAgent = or_null (userAgentHeader ctx),
                 confirmationToken = Some (newToken ctx), confirmedAt = None,
                 createdAt = to_seconds (insert_ms ctx)\<rparr>]\<rparr>"
    and "logs (create_signup e p ctx d w em cd ref) = []"
proof -
  let ?u = "js_and (doubleOptIn w) (isEmailConfigured e)"
  have u: "?u = Some True" using optin by simp
  note ins = create_signup_insert[OF fresh new, of "Some True" "next_position d (wid w)" cd ref]
  have row: "new_signup (Some True) ctx w (next_position d (wid w)) em cd ref
       = \<lparr>sid = newId ctx, waitlistId = wid w, email = em,
                 position = next_position d (wid w), status = Pending,
                 customData = cd, referralSource = or_null ref, ipAddress = clientIp ctx,
                 userAgent = or_null (userAgentHeader ctx),
                 confirmationToken = Some (newToken ctx), confirmedAt = None,
                 createdAt = to_seconds (insert_ms ctx)\<rparr>"
    by (rule new_signup_optin) simp
  note send = sendConfirmationEmail_configured[OF optin(2), of p]
  show "result (create_signup e p ctx d w em cd ref)
           = (case confirmationSend p of
                Raised msg \<Rightarrow> Inl (Thrown msg)
              | _ \<Rightarrow> Inr \<lparr>r_message = ''Please check your email to confirm your spot.'',
                          r_position = next_position d (wid w),
                          r_requiresConfirmation = Some True,
                          r_redirectUrl = or_null (redirectUrl w)\<rparr>)"
    using optin by (cases "confirmationSend p")
      (simp_all add: create_signup_def Let_def ins send thrown_def reply_ok_def fail_def)
  show "db_after (create_signup e p ctx d w em cd ref)
           = d\<lparr>signups := signups d @
               [\<lparr>sid = newId ctx, waitlistId = wid w, email = em,
                 position = next_position d (wid w), status = Pending,
                 customData = cd, referralSource = or_null ref, ipAddress = clientIp ctx,
                 userAgent = or_null (userAgentHeader ctx),
                 confirmationToken = Some (newToken ctx), confirmedAt = None,
                 createdAt = to_seconds (insert_ms ctx)\<rparr>]\<rparr>"
    unfolding row[symmetric] using optin by (cases "confirmationSend p")
      (simp_all add: create_signup_def Let_def ins send thrown_def reply_ok_def fail_def)
  show "logs (create_signup e p ctx d w em cd ref) = []"
    using optin by (cases "confirmationSend p")
      (simp_all add: create_signup_def Let_def ins send thrown_def reply_ok_def fail_def)
qed


section \<open>Signup without double opt-in\<close>


lemma eve_email: "normalizeEmail (b_email eve_body) = ''eve@example.com''"
  by code_simp

lemma eve_valid: "isValidEmail ''eve@example.com''"
  by (simp add: isValidEmail_def Let_def email_char_def is_space_def upt_rec)

lemma eve_fields:
  "collect_custom (fields_of open_list) (body_value eve_body) [] = Inr [(''company'', ''Acme'')]"
  by (simp add: fields_of_def open_list_def body_value_def eve_body_def property_of_def
      assign_def trim_def is_space_def)

lemma two_lists_rows: "signups two_lists = [ann, bob, cyd, dee]" "waitlists two_lists = [beta, open_list]"
  by (simp_all add: two_lists_def)

lemma open_positions: "waitlist_positions two_lists ''w2'' = [1]"
  by (simp add: waitlist_positions_def two_lists_rows ann_def bob_def cyd_def dee_def)

lemma open_fields: "slug open_list = ''open''" "wid open_list = ''w2''" "redirectUrl open_list = None"
  "doubleOptIn open_list = Some False" "notifyOnSignup open_list = Some True"
  "allowedOrigins open_list = Some []"
  by (simp_all add: open_list_def)

lemma env_on_live: "demoModeGuard env_on = None"
  by (simp add: demoModeGuard_def isDemoMode_def env_on_def)

lemma empty_store_passes:
  "outcome (signupRateLimit ip now0 now fmempty) = Inr ()"
  by (simp add: signupRateLimit_def rateLimit_def cleanupExpiredIfNeeded_def Let_def)

lemma eve_ctx_fields: "clientIp eve_ctx = Some ''203.0.113.7''" "userAgentHeader eve_ctx = None"
  "newId eve_ctx = ''s5''" "newToken eve_ctx = ''c0ffee''" "now_ms eve_ctx = 7000"
  "insert_ms eve_ctx = 7002" "rl_now0 eve_ctx = 6990" "rl_now eve_ctx = 6990"
  by (simp_all add: eve_ctx_def)



section \<open>Signup: required and best-effort emails\<close>

lemma welcome_and_notify_logged:
  assumes "isEmailConfigured e"
  shows "welcome_and_notify line e p w
           = (if (\<exists>msg. welcomeSend p = Raised msg)
                  \<or> (truthy_flag (notifyOnSignup w) \<and> (\<exists>msg. adminSend p = Raised msg))
              then [line] else [])"
  using assms
  by (cases "welcomeSend p"; cases "adminSend p")
    (simp_all add: welcome_and_notify_def sendWelcomeEmail_def sendAdminNotificationEmail_def
      isEmailConfigured_def thrown_def)

lemma fay_email: "normalizeEmail (b_email fay_body) = ''fay@example.com''"
  by code_simp

lemma fay_valid: "isValidEmail ''fay@example.com''"
  by (simp add: isValidEmail_def Let_def email_char_def is_space_def upt_rec)

lemma env_on_configured: "isEmailConfigured env_on"
  by (simp add: isEmailConfigured_def env_on_def)

lemma example_next_position: "next_position example_db ''w1'' = 4"
  by (simp add: next_position_def waitlist_positions_def example_rows ann_def bob_def cyd_def)

lemma open_next_position: "next_position two_lists ''w2'' = 2"
  by (simp add: next_position_def open_positions)

lemma beta_found: "find (\<lambda>w. slug w = ''beta'') (waitlists example_db) = Some beta"
  by (simp add: example_rows beta_fields)

lemma fay_fields: "collect_custom (fields_of beta) (body_value fay_body) [] = Inr []"
  by (simp add: fields_of_def beta_fields)

lemma fay_new:
  "\<forall>x\<in>set (signups example_db). waitlistId x = wid beta \<longrightarrow> email x \<noteq> normalizeEmail (b_email fay_body)"
  unfolding fay_email by (simp add: example_rows ann_def bob_def cyd_def)

lemma fay_fresh: "\<forall>x\<in>set (signups example_db). sid x \<noteq> newId eve_ctx"
  by (simp add: example_rows eve_ctx_fields ann_def bob_def cyd_def)

lemma fay_passes:
  "signup_route example_URL example_zod_email env_on p eve_ctx fmempty example_db ''beta'' None fay_body
     = (store (signupRateLimit (clientIp eve_ctx) (rl_now0 eve_ctx) (rl_now eve_ctx) fmempty),
        create_signup env_on p eve_ctx example_db beta ''fay@example.com'' []
          (Some ''producthunt''))"
proof -
  have zod: "example_zod_email (b_email fay_body)"
    by (simp add: example_zod_email_def fay_body_def)
  have cors: "dynamicCors example_URL example_db ''beta'' None = None"
    by (simp add: dynamicCors_def)
  have valid: "isValidEmail (normalizeEmail (b_email fay_body))"
    unfolding fay_email by (rule fay_valid)
  have none: "find (\<lambda>s. waitlistId s = wid beta \<and> email s = normalizeEmail (b_email fay_body))
                (signups example_db) = None"
    unfolding find_None_iff' using fay_new by blast
  have ref: "b_referralSource fay_body = Some ''producthunt''" by (simp add: fay_body_def)
  show ?thesis
    unfolding signup_route_passes[where zod_email = example_zod_email and body = fay_body,
        OF env_on_live cors empty_store_passes zod]
      signup_handler_new[OF beta_found valid fay_fields none] fay_email ref ..
qed

text \<open>
  C4 (the code at a double opt-in signup whose confirmation email the provider
  refuses). The waitlist \<open>beta\<close> asks for double opt-in and email is configured;
  \<open>fay@example.com\<close> signs up and the call that sends the confirmation email returns
  with the provider's error in its result. \<open>sendConfirmationEmail\<close> awaits the call and
  drops the result, so nothing is thrown: the request is answered as a success, with
  \<open>requiresConfirmation = true\<close> and position 4, nothing is logged, and the table holds
  the new pending row with its token. The failed send does not reach the caller.
\<close>

theorem signup_refused_send_answers_success:
  "confirmationSend provider_refusing = Refused
   \<and> snd (signup_route example_URL example_zod_email env_on provider_refusing eve_ctx fmempty
            example_db ''beta'' None fay_body)
     = \<lparr>db_after =
          \<lparr>waitlists = [beta],
           signups = [ann, bob, cyd,
             \<lparr>sid = ''s5'', waitlistId = ''w1'', email = ''fay@example.com'', position = 4,
              status = Pending, customData = [], referralSource = Some ''producthunt'',
              ipAddress = Some ''203.0.113.7'', userAgent = None,
              confirmationToken = Some ''c0ffee'', confirmedAt = None, createdAt = 7\<rparr>]\<rparr>,
        logs = [],
        result = Inr \<lparr>r_message = ''Please check your email to confirm your spot.'',
                      r_position = 4, r_requiresConfirmation = Some True,
                      r_redirectUrl = None\<rparr>\<rparr>"
proof -
  let ?c = "create_signup env_on provider_refusing eve_ctx example_db beta ''fay@example.com'' []
              (Some ''producthunt'')"
  have refused: "confirmationSend provider_refusing = Refused"
    by (simp add: provider_refusing_def)
  have new: "\<forall>x\<in>set (signups example_db). waitlistId x = wid beta \<longrightarrow> email x \<noteq> ''fay@example.com''"
    using fay_new unfolding fay_email .
  note parts = create_signup_optin[OF beta_fields(4) env_on_configured fay_fresh new,
      of provider_refusing "[]" "Some ''producthunt''"]
  have res: "result ?c = Inr \<lparr>r_message = ''Please check your email to confirm your spot.'',
                      r_position = 4, r_requiresConfirmation = Some True,
                      r_redirectUrl = None\<rparr>"
    unfolding parts(1) refused beta_fields example_next_position by (simp add: or_null_def)
  have dbr: "db_after ?c = \<lparr>waitlists = [beta],
           signups = [ann, bob, cyd,
             \<lparr>sid = ''s5'', waitlistId = ''w1'', email = ''fay@example.com'', position = 4,
              status = Pending, customData = [], referralSource = Some ''producthunt'',
              ipAddress = Some ''203.0.113.7'', userAgent = None,
              confirmationToken = Some ''c0ffee'', confirmedAt = None, createdAt = 7\<rparr>]\<rparr>"
    unfolding parts(2) beta_fields example_next_position eve_ctx_fields
    by (simp add: example_db_def or_null_def to_seconds_def)
  have "?c = \<lparr>db_after = db_after ?c, logs = logs ?c, result = result ?c\<rparr>" by simp
  then have "?c = \<lparr>db_after = \<lparr>waitlists = [beta],
           signups = [ann, bob, cyd,
             \<lparr>sid = ''s5'', waitlistId = ''w1'', email = ''fay@example.com'', position = 4,
              status = Pending, customData = [], referralSource = Some ''producthunt'',
              ipAddress = Some ''203.0.113.7'', userAgent = None,
              confirmationToken = Some ''c0ffee'', confirmedAt = None, createdAt = 7\<rparr>]\<rparr>,
        logs = [],
        result = Inr \<lparr>r_message = ''Please check your email to confirm your spot.'',
                      r_position = 4, r_requiresConfirmation = Some True,
                      r_redirectUrl = None\<rparr>\<rparr>"
    unfolding res dbr parts(3) .
  with refused show ?thesis unfolding fay_passes snd_conv by simp
qed

text \<open>
  X3. Take a signup request that passes the four guards of the route and reaches the
  insertion: the waitlist is found, the email is valid, the custom fields pass, the
  waitlist has no signup with the email, the new id is free. On the double opt-in path
  (\<open>doubleOptIn\<close> is \<open>true\<close> and email is configured) the request fails exactly when
  rendering or sending the confirmation email throws, and then with the thrown error;
  whether it fails or not, the tables it leaves hold the new pending row: the
  insertion is not undone. On the direct path the request succeeds whatever the
  welcome and admin-notification sends do; when email is configured, the handler logs
  one line exactly when one of the sends it tries throws.
\<close>

theorem signup_thrown_send_semantics:
  assumes demo: "demoModeGuard e = None"
    and cors: "dynamicCors URL d sl orig = None"
    and limit: "outcome (signupRateLimit (clientIp ctx) (rl_now0 ctx) (rl_now ctx) st) = Inr ()"
    and zod: "zod_email (b_email body)"
    and wl: "find (\<lambda>w. slug w = sl) (waitlists d) = Some w"
    and valid: "isValidEmail (normalizeEmail (b_email body))"
    and fields: "collect_custom (fields_of w) (body_value body) [] = Inr cd"
    and new: "\<forall>x\<in>set (signups d). waitlistId x = wid w \<longrightarrow> email x \<noteq> normalizeEmail (b_email body)"
    and fresh: "\<forall>x\<in>set (signups d). sid x \<noteq> newId ctx"
  shows "(doubleOptIn w = Some True \<and> isEmailConfigured e \<longrightarrow>
            result (snd (signup_route URL zod_email e p ctx st d sl orig body))
              = (case confirmationSend p of
                   Raised msg \<Rightarrow> Inl (Thrown msg)
                 | _ \<Rightarrow> Inr \<lparr>r_message = ''Please check your email to confirm your spot.'',
                             r_position = next_position d (wid w),
                             r_requiresConfirmation = Some True,
                             r_redirectUrl = or_null (redirectUrl w)\<rparr>)
          \<and> signups (db_after (snd (signup_route URL zod_email e p ctx st d sl orig body)))
              = signups d @
                  [\<lparr>sid = newId ctx, waitlistId = wid w, email = normalizeEmail (b_email body),
                    position = next_position d (wid w), status = Pending,
                    customData = cd, referralSource = or_null (b_referralSource body),
                    ipAddress = clientIp ctx, userAgent = or_null (userAgentHeader ctx),
                    confirmationToken = Some (newToken ctx), confirmedAt = None,
                    createdAt = to_seconds (insert_ms ctx)\<rparr>])
       \<and> (\<not> (truthy_flag (doubleOptIn w) \<and> isEmailConfigured e) \<longrightarrow>
            result (snd (signup_route URL zod_email e p ctx st d sl orig body))
              = Inr \<lparr>r_message = ''You're on the list!'', r_position = next_position d (wid w),
                     r_requiresConfirmation = js_and (doubleOptIn w) (isEmailConfigured e),
                     r_redirectUrl = or_null (redirectUrl w)\<rparr>
          \<and> signups (db_after (snd (signup_route URL zod_email e p ctx st d sl orig body)))
              = signups d @
                  [\<lparr>sid = newId ctx, waitlistId = wid w, email = normalizeEmail (b_email body),
                    position = next_position d (wid w), status = Confirmed,
                    customData = cd, referralSource = or_null (b_referralSource body),
                    ipAddress = clientIp ctx, userAgent = or_null (userAgentHeader ctx),
                    confirmationToken = None, confirmedAt = Some (to_seconds (now_ms ctx)),
                    createdAt = to_seconds (insert_ms ctx)\<rparr>])
       \<and> (\<not> truthy_flag (doubleOptIn w) \<and> isEmailConfigured e \<longrightarrow>
            logs (snd (signup_route URL zod_email e p ctx st d sl orig body))
              = (if (\<exists>msg. welcomeSend p = Raised msg)
                    \<or> (truthy_flag (notifyOnSignup w) \<and> (\<exists>msg. adminSend p = Raised msg))
                 then [''[Signup] Failed to send welcome/notification email:''] else []))"
proof -
  let ?em = "normalizeEmail (b_email body)"
  let ?r = "snd (signup_route URL zod_email e p ctx st d sl orig body)"
  have none: "find (\<lambda>s. waitlistId s = wid w \<and> email s = ?em) (signups d) = None"
    unfolding find_None_iff' using new by blast
  have r: "?r = create_signup e p ctx d w ?em cd (b_referralSource body)"
    unfolding signup_route_passes[where zod_email = zod_email and body = body, OF demo cors limit zod]
      snd_conv
    by (rule signup_handler_new[OF wl valid fields none])
  have optin: "result ?r
              = (case confirmationSend p of
                   Raised msg \<Rightarrow> Inl (Thrown msg)
                 | _ \<Rightarrow> Inr \<lparr>r_message = ''Please check your email to confirm your spot.'',
                             r_position = next_position d (wid w),
                             r_requiresConfirmation = Some True,
                             r_redirectUrl = or_null (redirectUrl w)\<rparr>)
          \<and> signups (db_after ?r)
              = signups d @
                  [\<lparr>sid = newId ctx, waitlistId = wid w, email = ?em,
                    position = next_position d (wid w), status = Pending,
                    customData = cd, referralSource = or_null (b_referralSource body),
                    ipAddress = clientIp ctx, userAgent = or_null (userAgentHeader ctx),
                    confirmationToken = Some (newToken ctx), confirmedAt = None,
                    createdAt = to_seconds (insert_ms ctx)\<rparr>]"
    if a: "doubleOptIn w = Some True \<and> isEmailConfigured e"
  proof -
    from a have a1: "doubleOptIn w = Some True" and a2: "isEmailConfigured e" by simp_all
    show ?thesis
      unfolding r create_signup_optin(1)[OF a1 a2 fresh new]
        create_signup_optin(2)[OF a1 a2 fresh new]
      by simp
  qed
  have direct: "result ?r
              = Inr \<lparr>r_message = ''You're on the list!'', r_position = next_position d (wid w),
                     r_requiresConfirmation = js_and (doubleOptIn w) (isEmailConfigured e),
                     r_redirectUrl = or_null (redirectUrl w)\<rparr>
          \<and> signups (db_after ?r)
              = signups d @
                  [\<lparr>sid = newId ctx, waitlistId = wid w, email = ?em,
                    position = next_position d (wid w), status = Confirmed,
                    customData = cd, referralSource = or_null (b_referralSource body),
                    ipAddress = clientIp ctx, userAgent = or_null (userAgentHeader ctx),
                    confirmationToken = None, confirmedAt = Some (to_seconds (now_ms ctx)),
                    createdAt = to_seconds (insert_ms ctx)\<rparr>]"
    if a: "\<not> (truthy_flag (doubleOptIn w) \<and> isEmailConfigured e)"
  proof -
    from a have dir: "\<not> truthy_flag (js_and (doubleOptIn w) (isEmailConfigured e))"
      by (simp add: truthy_js_and)
    show ?thesis
      unfolding r create_signup_direct(1)[OF dir fresh new] create_signup_direct(2)[OF dir fresh new]
      by simp
  qed
  have logged: "logs ?r
              = (if (\<exists>msg. welcomeSend p = Raised msg)
                    \<or> (truthy_flag (notifyOnSignup w) \<and> (\<exists>msg. adminSend p = Raised msg))
                 then [''[Signup] Failed to send welcome/notification email:''] else [])"
    if a: "\<not> truthy_flag (doubleOptIn w) \<and> isEmailConfigured e"
  proof -
    from a have dir: "\<not> truthy_flag (js_and (doubleOptIn w) (isEmailConfigured e))"
      and conf: "isEmailConfigured e"
      by (simp_all add: truthy_js_and)
    show ?thesis
      unfolding r create_signup_direct(3)[OF dir fresh new] welcome_and_notify_logged[OF conf]
      using conf by simp
  qed
  from optin direct logged show ?thesis by blast
qed

theorem signup_thrown_send_semantics_witness:
  "result (snd (signup_route example_URL example_zod_email env_on provider_down eve_ctx fmempty
                  example_db ''beta'' None fay_body))
     = Inl (Thrown ''fetch failed'')
   \<and> signups (db_after (snd (signup_route example_URL example_zod_email env_on provider_down eve_ctx
                  fmempty example_db ''beta'' None fay_body)))
     = [ann, bob, cyd,
        \<lparr>sid = ''s5'', waitlistId = ''w1'', email = ''fay@example.com'', position = 4,
         status = Pending, customData = [], referralSource = Some ''producthunt'',
         ipAddress = Some ''203.0.113.7'', userAgent = None, confirmationToken = Some ''c0ffee'',
         confirmedAt = None, createdAt = 7\<rparr>]
   \<and> result (snd (signup_route example_URL example_zod_email env_on provider_down eve_ctx fmempty
                  two_lists ''open'' None eve_body))
     = Inr \<lparr>r_message = ''You're on the list!'', r_position = 2,
            r_requiresConfirmation = Some False, r_redirectUrl = None\<rparr>
   \<and> logs (snd (signup_route example_URL example_zod_email env_on provider_down eve_ctx fmempty
                  two_lists ''open'' None eve_body))
     = [''[Signup] Failed to send welcome/notification email:'']"
proof -
  have cors1: "dynamicCors example_URL example_db ''beta'' None = None"
    by (simp add: dynamicCors_def)
  have zod1: "example_zod_email (b_email fay_body)"
    by (simp add: example_zod_email_def fay_body_def)
  have valid1: "isValidEmail (normalizeEmail (b_email fay_body))"
    unfolding fay_email by (rule fay_valid)
  have cors2: "dynamicCors example_URL two_lists ''open'' None = None"
    by (simp add: dynamicCors_def)
  have zod2: "example_zod_email (b_email eve_body)"
    by (simp add: example_zod_email_def eve_body_def)
  have wl2: "find (\<lambda>w. slug w = ''open'') (waitlists two_lists) = Some open_list"
    by (simp add: two_lists_rows beta_fields open_fields)
  have valid2: "isValidEmail (normalizeEmail (b_email eve_body))"
    unfolding eve_email by (rule eve_valid)
  have new2: "\<forall>x\<in>set (signups two_lists). waitlistId x = wid open_list
               \<longrightarrow> email x \<noteq> normalizeEmail (b_email eve_body)"
    unfolding eve_email by (simp add: two_lists_rows open_fields ann_def bob_def cyd_def dee_def)
  have fresh2: "\<forall>x\<in>set (signups two_lists). sid x \<noteq> newId eve_ctx"
    by (simp add: two_lists_rows eve_ctx_fields ann_def bob_def cyd_def dee_def)
  have down: "confirmationSend provider_down = Raised ''fetch failed''"
    "welcomeSend provider_down = Raised ''fetch failed''"
    by (simp_all add: provider_down_def)
  from signup_thrown_send_semantics[where zod_email = example_zod_email and body = fay_body
      and p = provider_down,
      OF env_on_live cors1 empty_store_passes zod1 beta_found valid1 fay_fields fay_new fay_fresh]
  have a: "result (snd (signup_route example_URL example_zod_email env_on provider_down eve_ctx fmempty
                  example_db ''beta'' None fay_body))
             = Inl (Thrown ''fetch failed'')
     \<and> signups (db_after (snd (signup_route example_URL example_zod_email env_on provider_down eve_ctx
                  fmempty example_db ''beta'' None fay_body)))
        = [ann, bob, cyd,
        \<lparr>sid = ''s5'', waitlistId = ''w1'', email = ''fay@example.com'', position = 4,
         status = Pending, customData = [], referralSource = Some ''producthunt'',
         ipAddress = Some ''203.0.113.7'', userAgent = None, confirmationToken = Some ''c0ffee'',
         confirmedAt = None, createdAt = 7\<rparr>]"
    using env_on_configured
    unfolding down fay_email beta_fields example_next_position eve_ctx_fields example_rows
    by (simp add: or_null_def to_seconds_def fay_body_def)
  from signup_thrown_send_semantics[where zod_email = example_zod_email and body = eve_body
      and p = provider_down,
      OF env_on_live cors2 empty_store_passes zod2 wl2 valid2 eve_fields new2 fresh2]
  have b: "result (snd (signup_route example_URL example_zod_email env_on provider_down eve_ctx fmempty
                  two_lists ''open'' None eve_body))
     = Inr \<lparr>r_message = ''You're on the list!'', r_position = 2,
            r_requiresConfirmation = Some False, r_redirectUrl = None\<rparr>
   \<and> logs (snd (signup_route example_URL example_zod_email env_on provider_down eve_ctx fmempty
                  two_lists ''open'' None eve_body))
     = [''[Signup] Failed to send welcome/notification email:'']"
    using env_on_configured
    unfolding down open_fields open_next_position
    by (simp add: or_null_def)
  from a b show ?thesis by simp
qed

section \<open>The token invariant\<close>

lemma token_inv_iff:
  "token_inv d \<longleftrightarrow> (\<forall>s\<in>set (signups d). confirmationToken s = None \<or> status s = Pending)"
  by (simp add: token_inv_def list_all_iff)

lemma resend_confirmation_db:
  "db_after (resend_confirmation e p ctx d x)
     = update_signups (\<lambda>s. sid s = sid x) (\<lambda>s. s\<lparr>confirmationToken := Some (newToken ctx)\<rparr>) d"
  by (simp add: resend_confirmation_def Let_def fail_def reply_ok_def split: option.splits)

lemma create_signup_db:
  "db_after (create_signup e p ctx d w em cd ref) = d
   \<or> (\<exists>b pos. db_after (create_signup e p ctx d w em cd ref)
                 = d\<lparr>signups := signups d @ [new_signup b ctx w pos em cd ref]\<rparr>)"
proof (cases "insert_signup (new_signup (js_and (doubleOptIn w) (isEmailConfigured e)) ctx w
                (next_position d (wid w)) em cd ref) d")
  case (Inl err)
  then show ?thesis by (simp add: create_signup_def Let_def fail_def)
next
  case (Inr d')
  from insert_signup_cases[OF Inr] have d': "d' = d\<lparr>signups := signups d @
     [new_signup (js_and (doubleOptIn w) (isEmailConfigured e)) ctx w (next_position d (wid w)) em cd ref]\<rparr>"
    by simp
  have "db_after (create_signup e p ctx d w em cd ref) = d'"
    using Inr by (simp add: create_signup_def Let_def fail_def reply_ok_def split: option.splits)
  with d' show ?thesis by blast
qed

lemma signup_handler_db:
  "db_after (signup_handler e p ctx d sl body) = d
   \<or> (\<exists>x\<in>set (signups d). status x = Pending
         \<and> db_after (signup_handler e p ctx d sl body)
             = update_signups (\<lambda>s. sid s = sid x) (\<lambda>s. s\<lparr>confirmationToken := Some (newToken ctx)\<rparr>) d)
   \<or> (\<exists>b pos w em cd ref. db_after (signup_handler e p ctx d sl body)
                 = d\<lparr>signups := signups d @ [new_signup b ctx w pos em cd ref]\<rparr>)"
proof (cases "find (\<lambda>w. slug w = sl) (waitlists d)")
  case None
  then show ?thesis by (simp add: signup_handler_def fail_def)
next
  case (Some w)
  note wl = this
  show ?thesis
  proof (cases "isValidEmail (normalizeEmail (b_email body))")
    case False
    then show ?thesis using wl by (simp add: signup_handler_def fail_def)
  next
    case True
    note valid = this
    show ?thesis
    proof (cases "collect_custom (fields_of w) (body_value body) []")
      case (Inl err)
      then show ?thesis using wl valid by (simp add: signup_handler_def fail_def)
    next
      case (Inr cd)
      note fields = this
      show ?thesis
      proof (cases "find (\<lambda>s. waitlistId s = wid w \<and> email s = normalizeEmail (b_email body)) (signups d)")
        case None
        from create_signup_db[of e p ctx d w "normalizeEmail (b_email body)" cd "b_referralSource body"]
        show ?thesis
          unfolding signup_handler_new[OF wl valid fields None] by blast
      next
        case (Some x)
        have x: "x \<in> set (signups d)" using find_SomeD[OF Some] by simp
        show ?thesis
        proof (cases "truthy_flag (doubleOptIn w) \<and> status x = Pending \<and> isEmailConfigured e")
          case True
          then have "signup_handler e p ctx d sl body = resend_confirmation e p ctx d x"
            unfolding signup_handler_existing[OF wl valid fields Some] by simp
          then show ?thesis using x True resend_confirmation_db by auto
        next
          case False
          then have "signup_handler e p ctx d sl body = fail d [] AlreadySignedUp"
            unfolding signup_handler_existing[OF wl valid fields Some]
            by (simp only: if_False if_cancel)
          then show ?thesis by (simp add: fail_def)
        qed
      qed
    qed
  qed
qed

lemma token_inv_signup:
  assumes inv: "token_inv d" and pk: "distinct (map sid (signups d))"
  shows "token_inv (db_after (signup_handler e p ctx d sl body))"
proof -
  let ?r = "signup_handler e p ctx d sl body"
  from signup_handler_db[of e p ctx d sl body]
  consider (same) "db_after ?r = d"
    | (resend) x where "x \<in> set (signups d)" "status x = Pending"
        "db_after ?r = update_signups (\<lambda>s. sid s = sid x)
                         (\<lambda>s. s\<lparr>confirmationToken := Some (newToken ctx)\<rparr>) d"
    | (created) b pos w em cd ref where
        "db_after ?r = d\<lparr>signups := signups d @ [new_signup b ctx w pos em cd ref]\<rparr>"
    by blast
  then show ?thesis
  proof cases
    case same
    then show ?thesis using inv by simp
  next
    case resend
    have "confirmationToken s' = None \<or> status s' = Pending"
      if "s' \<in> set (signups (db_after ?r))" for s'
    proof -
      from that obtain s where s: "s \<in> set (signups d)"
        "s' = (if sid s = sid x then s\<lparr>confirmationToken := Some (newToken ctx)\<rparr> else s)"
        unfolding resend(3) update_signups_simps by auto
      show ?thesis
      proof (cases "sid s = sid x")
        case True
        with pk s(1) resend(1) have "s = x" by (meson distinct_map inj_onD)
        with s(2) resend(2) show ?thesis by simp
      next
        case False
        with s inv show ?thesis by (simp add: token_inv_iff)
      qed
    qed
    then show ?thesis unfolding token_inv_iff by blast
  next
    case created
    have "confirmationToken (new_signup b ctx w pos em cd ref) = None
          \<or> status (new_signup b ctx w pos em cd ref) = Pending"
      by (simp add: new_signup_def)
    then show ?thesis using inv unfolding created token_inv_def by simp
  qed
qed

lemma token_inv_confirm:
  assumes inv: "token_inv d"
  shows "token_inv (db_after (confirm_handler e p now d sl t))"
proof -
  let ?f = "\<lambda>s. s\<lparr>status := Confirmed, confirmedAt := Some (to_seconds now), confirmationToken := None\<rparr>"
  have "db_after (confirm_handler e p now d sl t) = d
        \<or> (\<exists>sg::signup. db_after (confirm_handler e p now d sl t)
                            = update_signups (\<lambda>s. sid s = sid sg) ?f d)"
  proof (cases "find (\<lambda>w. slug w = sl) (waitlists d)")
    case None
    then show ?thesis by (simp add: confirm_handler_def fail_def)
  next
    case (Some w)
    note wl = this
    show ?thesis
    proof (cases "find (\<lambda>s. waitlistId s = wid w \<and> confirmationToken s = Some t) (signups d)")
      case None
      then show ?thesis using wl by (simp add: confirm_handler_def fail_def)
    next
      case (Some sg)
      show ?thesis
      proof (cases "status sg = Confirmed \<or> status sg = Invited")
        case True
        then show ?thesis using wl Some by (simp add: confirm_handler_def reply_ok_def)
      next
        case False
        then have "db_after (confirm_handler e p now d sl t) = update_signups (\<lambda>s. sid s = sid sg) ?f d"
          using wl Some by (simp add: confirm_handler_def reply_ok_def Let_def)
        then show ?thesis by blast
      qed
    qed
  qed
  then show ?thesis
  proof
    assume "db_after (confirm_handler e p now d sl t) = d"
    then show ?thesis using inv by simp
  next
    assume "\<exists>sg::signup. db_after (confirm_handler e p now d sl t)
                         = update_signups (\<lambda>s. sid s = sid sg) ?f d"
    then obtain sg :: signup where u: "db_after (confirm_handler e p now d sl t)
                               = update_signups (\<lambda>s. sid s = sid sg) ?f d" ..
    show ?thesis
      unfolding u token_inv_iff update_signups_simps using inv
      by (auto simp: token_inv_iff)
  qed
qed

lemma patch_signup_tokens:
  "map confirmationToken (signups (db_after (patch_signup now d w_id signupId bs)))
     = map confirmationToken (signups d)"
  by (auto simp: patch_signup_def fail_def reply_ok_def Let_def update_signups_simps
      split: option.splits)

lemma patch_signup_status:
  "s' \<in> set (signups (db_after (patch_signup now d w_id signupId bs))) \<Longrightarrow>
     \<exists>s\<in>set (signups d). confirmationToken s' = confirmationToken s
        \<and> (status s' = status s \<or> (sid s = signupId \<and> bs = Some (status s')))"
  by (auto simp: patch_signup_def fail_def reply_ok_def Let_def update_signups_simps
      split: option.splits if_splits)

text \<open>
  C3 (as the code has it). On tables with primary-key ids where only pending signups
  hold a token, a public signup request and a token confirmation request leave tables
  where only pending signups hold a token. The admin status patch never writes
  \<open>confirmationToken\<close>: every row keeps the token it had. So the patch keeps the
  invariant when it sets \<open>pending\<close>, carries no status, or is aimed at an id whose rows
  hold no token; a patch to \<open>confirmed\<close> or \<open>invited\<close> of a signup that holds a token
  leaves that token in place.
\<close>

theorem token_only_while_pending:
  assumes inv: "token_inv d" and pk: "distinct (map sid (signups d))"
  shows "token_inv (db_after (signup_handler e p ctx d sl body))
       \<and> token_inv (db_after (confirm_handler e p now d sl t))
       \<and> map confirmationToken (signups (db_after (patch_signup now d w_id signupId bs)))
           = map confirmationToken (signups d)
       \<and> (bs = None \<or> bs = Some Pending
            \<or> (\<forall>s\<in>set (signups d). sid s = signupId \<longrightarrow> confirmationToken s = None)
           \<longrightarrow> token_inv (db_after (patch_signup now d w_id signupId bs)))"
proof -
  have patch: "token_inv (db_after (patch_signup now d w_id signupId bs))"
    if c: "bs = None \<or> bs = Some Pending
            \<or> (\<forall>s\<in>set (signups d). sid s = signupId \<longrightarrow> confirmationToken s = None)"
  proof -
    have "confirmationToken s' = None \<or> status s' = Pending"
      if "s' \<in> set (signups (db_after (patch_signup now d w_id signupId bs)))" for s'
    proof -
      from patch_signup_status[OF that] obtain s where s: "s \<in> set (signups d)"
        "confirmationToken s' = confirmationToken s"
        "status s' = status s \<or> (sid s = signupId \<and> bs = Some (status s'))"
        by blast
      from inv s(1) have i: "confirmationToken s = None \<or> status s = Pending"
        by (simp add: token_inv_iff)
      from s(3) show ?thesis
      proof
        assume "status s' = status s"
        with i s(2) show ?thesis by simp
      next
        assume a: "sid s = signupId \<and> bs = Some (status s')"
        from c show ?thesis
        proof (elim disjE)
          assume "bs = None"
          with a show ?thesis by simp
        next
          assume "bs = Some Pending"
          with a show ?thesis by simp
        next
          assume "\<forall>s\<in>set (signups d). sid s = signupId \<longrightarrow> confirmationToken s = None"
          with a s(1,2) show ?thesis by simp
        qed
      qed
    qed
    then show ?thesis unfolding token_inv_iff by blast
  qed
  from token_inv_signup[OF inv pk] token_inv_confirm[OF inv] patch_signup_tokens patch
  show ?thesis by blast
qed

lemma example_inv: "token_inv example_db"
  by (simp add: token_inv_def example_rows ann_def bob_def cyd_def)

theorem token_only_while_pending_witness:
  "token_inv (db_after (signup_handler env_on provider_ok eve_ctx example_db ''beta'' fay_body))
   \<and> token_inv (db_after (confirm_handler env_on provider_ok 9000 example_db ''beta'' ''t1''))
   \<and> map confirmationToken (signups (db_after (patch_signup 9000 example_db ''w1'' ''s1'' (Some Confirmed))))
       = [Some ''t1'', None, None]
   \<and> token_inv (db_after (patch_signup 9000 example_db ''w1'' ''s2'' (Some Invited)))"
proof -
  have pk: "distinct (map sid (signups example_db))"
    by (simp add: example_rows ann_def bob_def cyd_def)
  have none: "\<forall>s\<in>set (signups example_db). sid s = ''s2'' \<longrightarrow> confirmationToken s = None"
    by (simp add: example_rows ann_def bob_def cyd_def)
  have toks: "map confirmationToken (signups example_db) = [Some ''t1'', None, None]"
    by (simp add: example_rows ann_def bob_def cyd_def)
  from token_only_while_pending[OF example_inv pk, where e = env_on and p = provider_ok
        and ctx = eve_ctx and sl = "''beta''" and body = fay_body and now = 9000 and t = "''t1''"
        and w_id = "''w1''" and signupId = "''s1''" and bs = "Some Confirmed"]
    token_only_while_pending[OF example_inv pk, where e = env_on and p = provider_ok
        and ctx = eve_ctx and sl = "''beta''" and body = fay_body and now = 9000 and t = "''t1''"
        and w_id = "''w1''" and signupId = "''s2''" and bs = "Some Invited"]
    none toks
  show ?thesis by simp
qed

text \<open>
  The admin confirms the pending signup of the example table: the tables before hold
  tokens on pending signups only, the tables after hold the token \<open>t1\<close> on a confirmed
  signup.
\<close>

theorem patch_keeps_token_counterexample:
  "token_inv example_db
   \<and> \<not> token_inv (db_after (patch_signup 9000 example_db ''w1'' ''s1'' (Some Confirmed)))
   \<and> find (\<lambda>s. sid s = ''s1'') (signups (db_after (patch_signup 9000 example_db ''w1'' ''s1'' (Some Confirmed))))
       = Some (ann\<lparr>status := Confirmed, confirmedAt := Some 9\<rparr>)
   \<and> confirmationToken (ann\<lparr>status := Confirmed, confirmedAt := Some 9\<rparr>) = Some ''t1''"
  by (simp add: token_inv_def patch_signup_def reply_ok_def update_signups_simps example_rows
      ann_def bob_def cyd_def to_seconds_def)

section \<open>Daily series\<close>

lemma fill_upto:
  "fill (a * ms_day) (b * ms_day) m
     = map (\<lambda>dy. \<lparr>day_date = dy,
                   day_count = (case m dy of None \<Rightarrow> 0 | Some e \<Rightarrow> day_count e),
                   day_confirmed = (case m dy of None \<Rightarrow> 0 | Some e \<Rightarrow> day_confirmed e)\<rparr>) [a..b]"
proof (induction "nat (b - a + 1)" arbitrary: a)
  case 0
  then have "b < a" by simp
  then have "\<not> a * ms_day \<le> b * ms_day" by (simp add: ms_day_def)
  then have "fill (a * ms_day) (b * ms_day) m = []" by (subst fill.simps) simp
  with \<open>b < a\<close> show ?case by simp
next
  case (Suc n)
  then have le: "a \<le> b" and n: "n = nat (b - (a + 1) + 1)" by simp_all
  have step: "a * ms_day + ms_day = (a + 1) * ms_day" by (simp add: algebra_simps)
  have dv: "a * ms_day div ms_day = a" by (simp add: ms_day_def)
  have c: "a * ms_day \<le> b * ms_day" using le by (simp add: ms_day_def)
  have "fill (a * ms_day) (b * ms_day) m
          = \<lparr>day_date = a,
             day_count = (case m a of None \<Rightarrow> 0 | Some e \<Rightarrow> day_count e),
             day_confirmed = (case m a of None \<Rightarrow> 0 | Some e \<Rightarrow> day_confirmed e)\<rparr>
            # fill ((a + 1) * ms_day) (b * ms_day) m"
    by (subst fill.simps) (simp add: c dv step Let_def)
  then show ?case
    using Suc.hyps(1)[OF n] upto_rec1[OF le] by simp
qed

lemma map_of_rev_distinct:
  assumes "distinct (map fst xs)"
  shows "map_of (rev xs) = map_of xs"
proof
  fix k
  have d: "distinct (map fst (rev xs))" using assms by (simp add: rev_map[symmetric])
  show "map_of (rev xs) k = map_of xs k"
  proof (cases "map_of xs k")
    case None
    then have "k \<notin> fst ` set xs" by (simp add: map_of_eq_None_iff)
    then have "map_of (rev xs) k = None" by (simp add: map_of_eq_None_iff)
    with None show ?thesis by simp
  next
    case (Some v)
    then have "(k, v) \<in> set xs" by (rule map_of_SomeD)
    then have "(k, v) \<in> set (rev xs)" by simp
    with d have "map_of (rev xs) k = Some v" by (simp only: map_of_eq_Some_iff)
    with Some show ?thesis by simp
  qed
qed

lemma dateMap_dailySignups:
  "dateMap (dailySignups rows) dy
     = (if dy \<in> (\<lambda>s. sql_date (createdAt s)) ` set rows
        then Some \<lparr>day_date = dy,
                 day_count = length (filter (\<lambda>s. sql_date (createdAt s) = dy) rows),
                 day_confirmed =
                   length (filter (\<lambda>s. sql_date (createdAt s) = dy
                                       \<and> (status s = Confirmed \<or> status s = Invited)) rows)\<rparr>
        else None)"
proof -
  let ?days = "sort (remdups (map (\<lambda>s. sql_date (createdAt s)) rows))"
  let ?f = "\<lambda>dy. \<lparr>day_date = dy,
                 day_count = length (filter (\<lambda>s. sql_date (createdAt s) = dy) rows),
                 day_confirmed =
                   length (filter (\<lambda>s. sql_date (createdAt s) = dy
                                       \<and> (status s = Confirmed \<or> status s = Invited)) rows)\<rparr>"
  have pairs: "map (\<lambda>e. (day_date e, e)) (dailySignups rows) = map (\<lambda>dy. (dy, ?f dy)) ?days"
    by (simp add: dailySignups_def)
  have dist: "distinct (map fst (map (\<lambda>dy. (dy, ?f dy)) ?days))"
    by (simp add: comp_def)
  have "dateMap (dailySignups rows) = map_of (map (\<lambda>dy. (dy, ?f dy)) ?days)"
    unfolding dateMap_def pairs by (rule map_of_rev_distinct[OF dist])
  also have "\<dots> = (Some \<circ> ?f) |` set ?days" by (rule map_of_map_restrict)
  finally show ?thesis by (simp add: restrict_map_def)
qed

lemma window_day:
  assumes "a \<le> dy" "dy \<le> b"
  shows "filter (\<lambda>s. sql_date (createdAt s) = dy \<and> Q s)
           (filter (\<lambda>s. waitlistId s = k \<and> (a * ms_day) div 1000 \<le> createdAt s
                         \<and> createdAt s \<le> (b * ms_day + 86399999) div 1000) xs)
         = filter (\<lambda>s. waitlistId s = k \<and> sql_date (createdAt s) = dy \<and> Q s) xs"
proof -
  have lo: "(a * ms_day) div 1000 = a * 86400" by (simp add: ms_day_def)
  have hi: "(b * ms_day + 86399999) div 1000 = b * 86400 + 86399" by (simp add: ms_day_def)
  have "a * 86400 \<le> t \<and> t \<le> b * 86400 + 86399" if "t div 86400 = dy" for t :: int
  proof -
    have "dy * 86400 \<le> t" "t < (dy + 1) * 86400"
      using that by auto
    moreover have "a * 86400 \<le> dy * 86400" "(dy + 1) * 86400 \<le> (b + 1) * 86400"
      using assms by simp_all
    ultimately show ?thesis by (simp add: algebra_simps)
  qed
  then show ?thesis
    unfolding lo hi filter_filter sql_date_def
    by (intro filter_cong) auto
qed

text \<open>
  C8. For an existing waitlist and the range of days from \<open>from\<close> to \<open>to\<close> (the query's, or
  the defaults), the daily series has exactly one entry for each day of the range, in
  ascending order of date: entry by entry it is the list of the days \<open>from, \<dots>, to\<close>,
  each with the number of the waitlist's signups created on that day and the number
  of those that are confirmed or invited. A day without signups has \<open>count = 0\<close> and
  \<open>confirmed = 0\<close>.
\<close>

theorem daily_series_gap_filled:
  assumes wl: "find (\<lambda>w. wid w = w_id) (waitlists d) = Some w"
  shows "stats_daily now d w_id q_from q_to
           = Inr (map (\<lambda>dy. \<lparr>day_date = dy,
                     day_count = length (filter (\<lambda>s. waitlistId s = w_id
                                                   \<and> sql_date (createdAt s) = dy) (signups d)),
                     day_confirmed = length (filter (\<lambda>s. waitlistId s = w_id
                                                   \<and> sql_date (createdAt s) = dy
                                                   \<and> (status s = Confirmed \<or> status s = Invited))
                                               (signups d))\<rparr>)
                   [fromDay now q_from..toDay now q_to])
       \<and> map day_date (filledDailySignups now d w_id q_from q_to) = [fromDay now q_from..toDay now q_to]
       \<and> (\<forall>e\<in>set (filledDailySignups now d w_id q_from q_to).
             (\<forall>s\<in>set (signups d). waitlistId s = w_id \<longrightarrow> sql_date (createdAt s) \<noteq> day_date e)
             \<longrightarrow> day_count e = 0 \<and> day_confirmed e = 0)"
proof -
  let ?a = "fromDay now q_from" and ?b = "toDay now q_to"
  let ?rows = "filter (\<lambda>s. waitlistId s = w_id \<and> (?a * ms_day) div 1000 \<le> createdAt s
                               \<and> createdAt s \<le> (?b * ms_day + 86399999) div 1000) (signups d)"
  let ?cnt = "\<lambda>dy. length (filter (\<lambda>s. waitlistId s = w_id \<and> sql_date (createdAt s) = dy) (signups d))"
  let ?cnf = "\<lambda>dy. length (filter (\<lambda>s. waitlistId s = w_id \<and> sql_date (createdAt s) = dy
                                   \<and> (status s = Confirmed \<or> status s = Invited)) (signups d))"
  let ?m = "dateMap (dailySignups ?rows)"
  have entry: "\<lparr>day_date = dy,
                day_count = (case ?m dy of None \<Rightarrow> 0 | Some e \<Rightarrow> day_count e),
                day_confirmed = (case ?m dy of None \<Rightarrow> 0 | Some e \<Rightarrow> day_confirmed e)\<rparr>
               = \<lparr>day_date = dy, day_count = ?cnt dy, day_confirmed = ?cnf dy\<rparr>"
    if dy: "dy \<in> set [?a..?b]" for dy
  proof -
    from dy have r: "?a \<le> dy" "dy \<le> ?b" by simp_all
    have c1: "length (filter (\<lambda>s. sql_date (createdAt s) = dy) ?rows) = ?cnt dy"
      using window_day[OF r, of "\<lambda>s. True" w_id "signups d"] by simp
    have c2: "length (filter (\<lambda>s. sql_date (createdAt s) = dy
                                 \<and> (status s = Confirmed \<or> status s = Invited)) ?rows) = ?cnf dy"
      using window_day[OF r, of "\<lambda>s. status s = Confirmed \<or> status s = Invited" w_id "signups d"]
      by simp
    show ?thesis
    proof (cases "dy \<in> (\<lambda>s. sql_date (createdAt s)) ` set ?rows")
      case True
      then show ?thesis unfolding dateMap_dailySignups c1 c2 by simp
    next
      case False
      then have z: "filter (\<lambda>s. sql_date (createdAt s) = dy) ?rows = []"
        "filter (\<lambda>s. sql_date (createdAt s) = dy \<and> (status s = Confirmed \<or> status s = Invited)) ?rows = []"
        by (auto simp: filter_empty_conv)
      from z c1 c2 have "?cnt dy = 0" "?cnf dy = 0" by simp_all
      with False show ?thesis unfolding dateMap_dailySignups by simp
    qed
  qed
  have series: "filledDailySignups now d w_id q_from q_to
                  = map (\<lambda>dy. \<lparr>day_date = dy, day_count = ?cnt dy, day_confirmed = ?cnf dy\<rparr>) [?a..?b]"
    unfolding filledDailySignups_def Let_def fill_upto
    by (rule map_cong[OF refl]) (rule entry)
  have p1: "stats_daily now d w_id q_from q_to
              = Inr (map (\<lambda>dy. \<lparr>day_date = dy, day_count = ?cnt dy, day_confirmed = ?cnf dy\<rparr>) [?a..?b])"
    by (simp add: stats_daily_def wl series)
  have p2: "map day_date (filledDailySignups now d w_id q_from q_to) = [?a..?b]"
    unfolding series by (simp add: comp_def)
  have p3: "\<forall>e\<in>set (filledDailySignups now d w_id q_from q_to).
             (\<forall>s\<in>set (signups d). waitlistId s = w_id \<longrightarrow> sql_date (createdAt s) \<noteq> day_date e)
             \<longrightarrow> day_count e = 0 \<and> day_confirmed e = 0"
    unfolding series by (auto simp: filter_empty_conv)
  from p1 p2 p3 show ?thesis by blast
qed

lemma ten_days: "[0..9] = [0, 1, 2, 3, 4, 5, 6, 7, 8, 9 :: int]"
  by code_simp

theorem daily_series_gap_filled_witness:
  "stats_daily 0 stats_db ''w1'' (Some 0) (Some 9)
     = Inr [\<lparr>day_date = 0, day_count = 0, day_confirmed = 0\<rparr>,
            \<lparr>day_date = 1, day_count = 0, day_confirmed = 0\<rparr>,
            \<lparr>day_date = 2, day_count = 1, day_confirmed = 0\<rparr>,
            \<lparr>day_date = 3, day_count = 0, day_confirmed = 0\<rparr>,
            \<lparr>day_date = 4, day_count = 0, day_confirmed = 0\<rparr>,
            \<lparr>day_date = 5, day_count = 0, day_confirmed = 0\<rparr>,
            \<lparr>day_date = 6, day_count = 1, day_confirmed = 1\<rparr>,
            \<lparr>day_date = 7, day_count = 0, day_confirmed = 0\<rparr>,
            \<lparr>day_date = 8, day_count = 0, day_confirmed = 0\<rparr>,
            \<lparr>day_date = 9, day_count = 0, day_confirmed = 0\<rparr>]
   \<and> length (filledDailySignups 0 stats_db ''w1'' (Some 0) (Some 9)) = 10
   \<and> length (filter (\<lambda>e. day_count e = 0 \<and> day_confirmed e = 0)
        (filledDailySignups 0 stats_db ''w1'' (Some 0) (Some 9))) = 8"
proof -
  have wl: "find (\<lambda>w. wid w = ''w1'') (waitlists stats_db) = Some beta"
    by (simp add: stats_db_def beta_fields)
  have days: "sql_date (createdAt gus) = 2" "sql_date (createdAt hal) = 6"
    by (simp_all add: sql_date_def gus_def hal_def)
  have rows: "signups stats_db = [gus, hal]" by (simp add: stats_db_def)
  have f: "waitlistId gus = ''w1''" "waitlistId hal = ''w1''" "status gus = Pending"
    "status hal = Confirmed"
    by (simp_all add: gus_def hal_def)
  note inst = daily_series_gap_filled[OF wl, of 0 "Some 0" "Some 9"]
  have r: "fromDay 0 (Some 0) = 0" "toDay 0 (Some 9) = 9" by (simp_all add: fromDay_def toDay_def)
  from inst have a: "stats_daily 0 stats_db ''w1'' (Some 0) (Some 9)
     = Inr [\<lparr>day_date = 0, day_count = 0, day_confirmed = 0\<rparr>,
            \<lparr>day_date = 1, day_count = 0, day_confirmed = 0\<rparr>,
            \<lparr>day_date = 2, day_count = 1, day_confirmed = 0\<rparr>,
            \<lparr>day_date = 3, day_count = 0, day_confirmed = 0\<rparr>,
            \<lparr>day_date = 4, day_count = 0, day_confirmed = 0\<rparr>,
            \<lparr>day_date = 5, day_count = 0, day_confirmed = 0\<rparr>,
            \<lparr>day_date = 6, day_count = 1, day_confirmed = 1\<rparr>,
            \<lparr>day_date = 7, day_count = 0, day_confirmed = 0\<rparr>,
            \<lparr>day_date = 8, day_count = 0, day_confirmed = 0\<rparr>,
            \<lparr>day_date = 9, day_count = 0, day_confirmed = 0\<rparr>]"
    unfolding r ten_days rows by (simp add: days f)
  then have b: "filledDailySignups 0 stats_db ''w1'' (Some 0) (Some 9)
     = [\<lparr>day_date = 0, day_count = 0, day_confirmed = 0\<rparr>,
            \<lparr>day_date = 1, day_count = 0, day_confirmed = 0\<rparr>,
            \<lparr>day_date = 2, day_count = 1, day_confirmed = 0\<rparr>,
            \<lparr>day_date = 3, day_count = 0, day_confirmed = 0\<rparr>,
            \<lparr>day_date = 4, day_count = 0, day_confirmed = 0\<rparr>,
            \<lparr>day_date = 5, day_count = 0, day_confirmed = 0\<rparr>,
            \<lparr>day_date = 6, day_count = 1, day_confirmed = 1\<rparr>,
            \<lparr>day_date = 7, day_count = 0, day_confirmed = 0\<rparr>,
            \<lparr>day_date = 8, day_count = 0, day_confirmed = 0\<rparr>,
            \<lparr>day_date = 9, day_count = 0, day_confirmed = 0\<rparr>]"
    by (simp add: stats_daily_def wl)
  show ?thesis unfolding a b by simp
qed

section \<open>CSV export\<close>

lemma digits_small: "n < 10 \<Longrightarrow> digits n = [digit_char n]"
  by (subst digits.simps) simp

lemma show_int_1: "show_int 1 = ''1''"
  by (simp add: show_int_def digits_small digit_char_def) code_simp

lemma quote_cells_strings: "quote_cells (map Some cells) = Inr (map quote_cell cells)"
  by (induction cells) simp_all

lemma csv_lines_strings:
  "csv_lines (map (map Some) rows) = Inr (map (\<lambda>row. join [comma] (map quote_cell row)) rows)"
  by (induction rows) (simp_all add: quote_cells_strings)

lemma quoted_row:
  "csv_row tz quoted_list ivy
     = map Some [''1'', ''ivy@example.com'', ''confirmed'', [], [], tz 500, tz 500]"
  by (simp add: csv_row_def quoted_list_def ivy_def fields_of_def custom_cell_def property_of_def
      object_prototype_members_def show_int_1 or_empty_def dquote_def)

lemma quoted_export:
  "export_csv tz quoted_db ''w3''
     = Inr (''position,email,status,referral_source,'' @ [dquote] @ ''x,confirmed_at,created_at''
            @ [newline] @ [dquote] @ ''1'' @ [dquote] @ '','' @ quote_cell ''ivy@example.com'' @ '',''
            @ quote_cell ''confirmed'' @ '','' @ quote_cell [] @ '','' @ quote_cell [] @ '',''
            @ quote_cell (tz 500) @ '','' @ quote_cell (tz 500))"
proof -
  have wl: "find (\<lambda>w. wid w = ''w3'') (waitlists quoted_db) = Some quoted_list"
    by (simp add: quoted_db_def quoted_list_def)
  have rows: "allSignups quoted_db ''w3'' = [ivy]"
    by (simp add: allSignups_def quoted_db_def ivy_def)
  have ls: "csv_lines [csv_row tz quoted_list ivy]
              = Inr [join [comma] (map quote_cell
                       [''1'', ''ivy@example.com'', ''confirmed'', [], [], tz 500, tz 500])]"
    using csv_lines_strings[of "[[''1'', ''ivy@example.com'', ''confirmed'', [], [], tz 500, tz 500]]"]
    by (simp add: quoted_row)
  have e: "export_csv tz quoted_db ''w3''
             = Inr (join [newline]
                 [join [comma] (csv_headers quoted_list),
                  join [comma] (map quote_cell
                    [''1'', ''ivy@example.com'', ''confirmed'', [], [], tz 500, tz 500])])"
    by (simp add: export_csv_def wl rows ls del: csv_lines.simps)
  show ?thesis
    unfolding e
    by (simp add: quoted_list_def csv_headers_def fields_of_def comma_def
        quote_cell_def[of "''1''"] escape_quotes_def[of "''1''"] dquote_def)
qed

text \<open>
  C9 (the code at a waitlist whose custom field key begins with a double quote). The
  header line of the export is joined without quoting, so the key opens a quoted
  field that runs on into the first data row; the file does not parse, and no row of
  the signup table is read back.
\<close>

theorem export_header_breaks_roundtrip:
  "\<exists>csv. export_csv toISO quoted_db ''w3'' = Inr csv \<and> parse_csv csv = None"
  unfolding quoted_export
  by (simp add: parse_csv_def dquote_def comma_def newline_def)

lemma chars_distinct: "comma \<noteq> dquote" "newline \<noteq> dquote" "newline \<noteq> comma"
  by (simp_all add: comma_def dquote_def newline_def)

lemma field_comma:
  "field_done st cur \<Longrightarrow> rfc4180 st cur fs (comma # cs) = rfc4180 FieldStart [] (fs @ [cur]) cs"
  by (cases st) (auto simp: field_done_def chars_distinct)

lemma field_line_end:
  "field_done st cur \<Longrightarrow> line_end rest \<Longrightarrow> rfc4180 st cur fs rest = record_end (fs @ [cur]) rest"
  by (cases st) (auto simp: field_done_def line_end_def record_end_def chars_distinct)

lemma escape_quotes_simps:
  "escape_quotes [] = []"
  "escape_quotes (dquote # cell) = dquote # dquote # escape_quotes cell"
  "c \<noteq> dquote \<Longrightarrow> escape_quotes (c # cell) = c # escape_quotes cell"
  by (simp_all add: escape_quotes_def)

lemma quoted_body:
  "rfc4180 InQuoted cur fs (escape_quotes cell @ rest) = rfc4180 InQuoted (cur @ cell) fs rest"
proof (induction cell arbitrary: cur)
  case Nil
  then show ?case by (simp add: escape_quotes_simps)
next
  case (Cons c cell)
  show ?case
  proof (cases "c = dquote")
    case True
    then show ?thesis using Cons[of "cur @ [dquote]"] by (simp add: escape_quotes_simps)
  next
    case False
    then show ?thesis using Cons[of "cur @ [c]"] by (simp add: escape_quotes_simps)
  qed
qed

lemma quoted_cell:
  "rfc4180 FieldStart [] fs (quote_cell cell @ rest) = rfc4180 AfterQuote cell fs rest"
proof -
  have "rfc4180 FieldStart [] fs (quote_cell cell @ rest)
          = rfc4180 InQuoted [] fs (escape_quotes cell @ (dquote # rest))"
    by (simp add: quote_cell_def)
  also have "\<dots> = rfc4180 InQuoted cell fs (dquote # rest)"
    using quoted_body[of "[]" fs cell "dquote # rest"] by simp
  also have "\<dots> = rfc4180 AfterQuote cell fs rest" by simp
  finally show ?thesis .
qed

lemma plain_body:
  "clean cell \<Longrightarrow> rfc4180 InUnquoted cur fs (cell @ rest) = rfc4180 InUnquoted (cur @ cell) fs rest"
proof (induction cell arbitrary: cur)
  case Nil
  then show ?case by simp
next
  case (Cons c cell)
  then have c: "c \<noteq> dquote" "c \<noteq> comma" "c \<noteq> newline" and cl: "clean cell"
    by (simp_all add: clean_def)
  show ?case using Cons.IH[OF cl, of "cur @ [c]"] c by simp
qed

lemma plain_cell:
  assumes "clean cell"
  shows "\<exists>st. field_done st cell \<and> rfc4180 FieldStart [] fs (cell @ rest) = rfc4180 st cell fs rest"
proof (cases cell)
  case Nil
  then show ?thesis by (intro exI[of _ FieldStart]) (simp add: field_done_def)
next
  case (Cons c cs)
  with assms have c: "c \<noteq> dquote" "c \<noteq> comma" "c \<noteq> newline" and cl: "clean cs"
    by (simp_all add: clean_def)
  have "rfc4180 FieldStart [] fs (cell @ rest) = rfc4180 InUnquoted [c] fs (cs @ rest)"
    using c Cons by simp
  also have "\<dots> = rfc4180 InUnquoted cell fs rest"
    using plain_body[OF cl, of "[c]" fs rest] Cons by simp
  finally show ?thesis by (intro exI[of _ InUnquoted]) (simp add: field_done_def)
qed

lemma quoted_line:
  assumes "cells \<noteq> []" "line_end rest"
  shows "rfc4180 FieldStart [] fs (join [comma] (map quote_cell cells) @ rest)
           = record_end (fs @ cells) rest"
  using assms
proof (induction cells arbitrary: fs rule: induct_list012)
  case 1
  then show ?case by simp
next
  case (2 x)
  have "field_done AfterQuote x" by (simp add: field_done_def)
  from field_line_end[OF this 2(2)] show ?case by (simp add: quoted_cell)
next
  case (3 x y ys)
  have d: "field_done AfterQuote x" by (simp add: field_done_def)
  have "rfc4180 FieldStart [] fs (join [comma] (map quote_cell (x # y # ys)) @ rest)
          = rfc4180 AfterQuote x fs (comma # join [comma] (map quote_cell (y # ys)) @ rest)"
    using quoted_cell[of fs x "comma # join [comma] (map quote_cell (y # ys)) @ rest"] by simp
  also have "\<dots> = rfc4180 FieldStart [] (fs @ [x]) (join [comma] (map quote_cell (y # ys)) @ rest)"
    by (rule field_comma[OF d])
  also have "\<dots> = record_end ((fs @ [x]) @ y # ys) rest"
    using 3 by simp
  finally show ?case by simp
qed

lemma plain_line:
  assumes "cells \<noteq> []" "\<forall>c\<in>set cells. clean c" "line_end rest"
  shows "rfc4180 FieldStart [] fs (join [comma] cells @ rest) = record_end (fs @ cells) rest"
  using assms
proof (induction cells arbitrary: fs rule: induct_list012)
  case 1
  then show ?case by simp
next
  case (2 x)
  then have "clean x" by simp
  from plain_cell[OF this, of fs rest] obtain st where
    st: "field_done st x" "rfc4180 FieldStart [] fs (x @ rest) = rfc4180 st x fs rest" by blast
  from field_line_end[OF st(1) 2(3)] st(2) show ?case by simp
next
  case (3 x y ys)
  then have "clean x" by simp
  from plain_cell[OF this, of fs "comma # join [comma] (y # ys) @ rest"] obtain st where
    st: "field_done st x"
      "rfc4180 FieldStart [] fs (x @ comma # join [comma] (y # ys) @ rest)
         = rfc4180 st x fs (comma # join [comma] (y # ys) @ rest)" by blast
  have "rfc4180 FieldStart [] fs (join [comma] (x # y # ys) @ rest)
          = rfc4180 st x fs (comma # join [comma] (y # ys) @ rest)"
    using st(2) by simp
  also have "\<dots> = rfc4180 FieldStart [] (fs @ [x]) (join [comma] (y # ys) @ rest)"
    by (rule field_comma[OF st(1)])
  also have "\<dots> = record_end ((fs @ [x]) @ y # ys) rest"
    using 3 by simp
  finally show ?case by simp
qed

lemma join_Cons_Cons: "ys \<noteq> [] \<Longrightarrow> join sep (x # ys) = x @ sep @ join sep ys"
  by (cases ys) simp_all

lemma quoted_file:
  assumes "rows \<noteq> []" "\<forall>r\<in>set rows. r \<noteq> []"
  shows "rfc4180 FieldStart [] [] (join [newline] (map (\<lambda>row. join [comma] (map quote_cell row)) rows))
           = Some rows"
  using assms
proof (induction rows rule: induct_list012)
  case 1
  then show ?case by simp
next
  case (2 r)
  then have r: "r \<noteq> []" by simp
  have "line_end []" by (simp add: line_end_def)
  from quoted_line[OF r this, of "[]"] show ?case by (simp add: record_end_def)
next
  case (3 r r' rs)
  let ?tail = "join [newline] (map (\<lambda>row. join [comma] (map quote_cell row)) (r' # rs))"
  from 3 have r: "r \<noteq> []" and rest: "\<forall>r\<in>set (r' # rs). r \<noteq> []" by simp_all
  have le: "line_end (newline # ?tail)" by (simp add: line_end_def)
  have ih: "rfc4180 FieldStart [] [] ?tail = Some (r' # rs)"
    using 3(2) rest by simp
  have "rfc4180 FieldStart [] [] (join [newline] (map (\<lambda>row. join [comma] (map quote_cell row)) (r # r' # rs)))
          = rfc4180 FieldStart [] [] (join [comma] (map quote_cell r) @ newline # ?tail)"
    by simp
  also have "\<dots> = record_end ([] @ r) (newline # ?tail)"
    by (rule quoted_line[OF r le])
  also have "\<dots> = map_option ((#) r) (rfc4180 FieldStart [] [] ?tail)"
    by (simp only: record_end_def list.case append_Nil)
  also have "\<dots> = Some (r # r' # rs)"
    by (simp only: ih option.map)
  finally show ?case .
qed

lemma export_file:
  assumes h: "hdr \<noteq> []" "\<forall>c\<in>set hdr. clean c" and rows: "\<forall>r\<in>set rows. r \<noteq> []"
  shows "parse_csv (join [newline] (join [comma] hdr # map (\<lambda>row. join [comma] (map quote_cell row)) rows))
           = Some (hdr # rows)"
proof (cases "rows = []")
  case True
  have "line_end []" by (simp add: line_end_def)
  from plain_line[OF h this, of "[]"] True show ?thesis
    by (simp add: parse_csv_def record_end_def)
next
  case False
  let ?tail = "join [newline] (map (\<lambda>row. join [comma] (map quote_cell row)) rows)"
  have le: "line_end (newline # ?tail)" by (simp add: line_end_def)
  have j: "join [newline] (join [comma] hdr # map (\<lambda>row. join [comma] (map quote_cell row)) rows)
             = join [comma] hdr @ newline # ?tail"
    using False by (simp add: join_Cons_Cons)
  have "rfc4180 FieldStart [] [] (join [comma] hdr @ newline # ?tail) = record_end ([] @ hdr) (newline # ?tail)"
    by (rule plain_line[OF h le])
  also have "\<dots> = map_option ((#) hdr) (rfc4180 FieldStart [] [] ?tail)"
    by (simp only: record_end_def list.case append_Nil)
  also have "\<dots> = Some (hdr # rows)"
    by (simp only: quoted_file[OF False rows] option.map)
  finally show ?thesis unfolding parse_csv_def j .
qed

lemma of_char_digit: "m < 10 \<Longrightarrow> (of_char (digit_char m) :: nat) = 48 + m"
  by (simp add: digit_char_def)

lemma digit_value_digit: "m < 10 \<Longrightarrow> digit_value (digit_char m) = Some m"
  by (simp add: of_char_digit)

lemma read_nat_snoc:
  "m < 10 \<Longrightarrow> read_nat acc (xs @ [digit_char m]) = map_option (\<lambda>a. 10 * a + m) (read_nat acc xs)"
proof (induction xs arbitrary: acc)
  case Nil
  then show ?case by (simp add: digit_value_digit del: digit_value.simps)
next
  case (Cons c xs)
  then show ?case by (cases "digit_value c") (simp_all del: digit_value.simps)
qed

lemma read_nat_digits: "read_nat 0 (digits n) = Some n"
proof (induction n rule: digits.induct)
  case (1 n)
  show ?case
  proof (cases "n < 10")
    case True
    then have "digits n = [digit_char n]" by (subst digits.simps) simp
    with True show ?thesis by (simp add: digit_value_digit del: digit_value.simps)
  next
    case False
    then have d: "digits n = digits (n div 10) @ [digit_char (n mod 10)]"
      by (subst digits.simps) simp
    have "n mod 10 < 10" by simp
    from read_nat_snoc[OF this, of 0 "digits (n div 10)"] 1[OF False]
    show ?thesis unfolding d by simp
  qed
qed

lemma digits_first: "digits n \<noteq> [] \<and> hd (digits n) \<noteq> CHR ''-''"
proof (induction n rule: digits.induct)
  case (1 n)
  have dc: "digit_char m \<noteq> CHR ''-''" if "m < 10" for m
  proof
    assume "digit_char m = CHR ''-''"
    then have "(of_char (digit_char m) :: nat) = of_char (CHR ''-'')" by simp
    with that show False by (simp add: of_char_digit)
  qed
  show ?case
  proof (cases "n < 10")
    case True
    then have "digits n = [digit_char n]" by (subst digits.simps) simp
    with True dc show ?thesis by simp
  next
    case False
    then have d: "digits n = digits (n div 10) @ [digit_char (n mod 10)]"
      by (subst digits.simps) simp
    from 1[OF False] show ?thesis unfolding d by simp
  qed
qed

lemma read_int_show_int: "read_int (show_int i) = Some i"
proof (cases "i < 0")
  case True
  then show ?thesis
    using digits_first[of "nat (- i)"] read_nat_digits[of "nat (- i)"]
    by (simp add: read_int_def show_int_def)
next
  case False
  obtain c cs where cs: "digits (nat i) = c # cs" "c \<noteq> CHR ''-''"
    using digits_first[of "nat i"] by (cases "digits (nat i)") auto
  with False show ?thesis
    using read_nat_digits[of "nat i"] by (simp add: read_int_def show_int_def)
qed

lemma read_status_text: "read_status (status_text st) = Some st"
  by (cases st) (simp_all add: read_status_def)

lemma fixed_headers_clean:
  "clean ''position''" "clean ''email''" "clean ''status''" "clean ''referral_source''"
  "clean ''confirmed_at''" "clean ''created_at''"
  by (simp_all add: clean_def dquote_def comma_def newline_def)

text \<open>
  The cells of a row when no custom field key names a member of \<open>Object.prototype\<close>:
  every cell is a string.
\<close>

lemma custom_cell_plain:
  "k \<notin> set object_prototype_members \<Longrightarrow> custom_cell cd k = Some (or_empty (map_of cd k))"
  by (simp add: custom_cell_def property_of_def or_empty_def split: option.splits)

lemma csv_row_plain:
  assumes "\<forall>f\<in>set (fields_of w). key f \<notin> set object_prototype_members"
  shows "csv_row toISO w s
           = map Some
               ([show_int (position s), email s, status_text (status s), or_empty (referralSource s)]
                  @ map (\<lambda>k. or_empty (map_of (customData s) k)) (map key (fields_of w))
                  @ [or_empty (map_option toISO (confirmedAt s)), toISO (createdAt s)])"
  using assms by (simp add: csv_row_def custom_cell_plain)

text \<open>
  X1. For a waitlist whose custom field keys hold no double quote, comma or line
  feed and name no member of \<open>Object.prototype\<close>, the export succeeds, every cell of
  every row is a string, and the file parses back to the header row, with the columns
  \<open>position\<close>, \<open>email\<close>, \<open>status\<close>, \<open>referral_source\<close>, the keys in schema order,
  \<open>confirmed_at\<close>, \<open>created_at\<close>, followed by one row per signup of the waitlist in
  ascending order of position; the first three cells of each row read back as the
  signup's position, email and status, whatever characters the email and the other
  cells contain.
\<close>

theorem export_roundtrip_clean_keys:
  assumes wl: "find (\<lambda>w. wid w = w_id) (waitlists d) = Some w"
    and keys: "\<forall>f\<in>set (fields_of w). clean (key f) \<and> key f \<notin> set object_prototype_members"
  shows "\<exists>csv rows. export_csv toISO d w_id = Inr csv
           \<and> map (csv_row toISO w) (allSignups d w_id) = map (map Some) rows
           \<and> parse_csv csv = Some (csv_headers w # rows)
           \<and> map row_triple rows
               = map (\<lambda>s. (Some (position s), email s, Some (status s))) (allSignups d w_id)
           \<and> length (allSignups d w_id) = length (filter (\<lambda>s. waitlistId s = w_id) (signups d))
           \<and> set (allSignups d w_id) = {s \<in> set (signups d). waitlistId s = w_id}
           \<and> sorted (map position (allSignups d w_id))"
proof -
  let ?plain = "\<lambda>s. [show_int (position s), email s, status_text (status s), or_empty (referralSource s)]
                  @ map (\<lambda>k. or_empty (map_of (customData s) k)) (map key (fields_of w))
                  @ [or_empty (map_option toISO (confirmedAt s)), toISO (createdAt s)]"
  let ?rows = "map ?plain (allSignups d w_id)"
  have members: "\<forall>f\<in>set (fields_of w). key f \<notin> set object_prototype_members"
    using keys by simp
  have h1: "csv_headers w \<noteq> []" by (simp add: csv_headers_def)
  have h2: "\<forall>c\<in>set (csv_headers w). clean c"
    using keys by (auto simp: csv_headers_def fixed_headers_clean)
  have r: "\<forall>r\<in>set ?rows. r \<noteq> []" by auto
  have cells: "map (csv_row toISO w) (allSignups d w_id) = map (map Some) ?rows"
    by (simp add: csv_row_plain[OF members] comp_def)
  have e: "export_csv toISO d w_id
             = Inr (join [newline] (join [comma] (csv_headers w)
                      # map (\<lambda>row. join [comma] (map quote_cell row)) ?rows))"
  proof -
    have "export_csv toISO d w_id
            = (case csv_lines (map (csv_row toISO w) (allSignups d w_id)) of
                 Inl err \<Rightarrow> Inl err
               | Inr ls \<Rightarrow> Inr (join [newline] (join [comma] (csv_headers w) # ls)))"
      by (simp add: export_csv_def wl)
    then show ?thesis unfolding cells csv_lines_strings by simp
  qed
  have p: "parse_csv (join [newline] (join [comma] (csv_headers w)
                      # map (\<lambda>row. join [comma] (map quote_cell row)) ?rows))
             = Some (csv_headers w # ?rows)"
    by (rule export_file[OF h1 h2 r])
  have t: "map row_triple ?rows
             = map (\<lambda>s. (Some (position s), email s, Some (status s))) (allSignups d w_id)"
    by (simp add: row_triple_def read_int_show_int read_status_text comp_def)
  have l: "length (allSignups d w_id) = length (filter (\<lambda>s. waitlistId s = w_id) (signups d))"
    by (simp add: allSignups_def)
  have s: "set (allSignups d w_id) = {s \<in> set (signups d). waitlistId s = w_id}"
    by (simp add: allSignups_def)
  have o: "sorted (map position (allSignups d w_id))"
    by (simp add: allSignups_def)
  from e cells p t l s o show ?thesis by blast
qed

lemma dee_row: "csv_row show_int open_list dee
                  = map Some [''1'', ''dee@example.com'', ''confirmed'', [], ''Initech'', ''400'', ''400'']"
  by code_simp

theorem export_roundtrip_clean_keys_witness:
  "\<exists>csv. export_csv show_int two_lists ''w2'' = Inr csv
     \<and> parse_csv csv
         = Some [[''position'', ''email'', ''status'', ''referral_source'', ''company'',
                  ''confirmed_at'', ''created_at''],
                 [''1'', ''dee@example.com'', ''confirmed'', [], ''Initech'', ''400'', ''400'']]"
proof -
  have wl: "find (\<lambda>w. wid w = ''w2'') (waitlists two_lists) = Some open_list"
    by (simp add: two_lists_rows beta_def open_list_def)
  have keys: "\<forall>f\<in>set (fields_of open_list). clean (key f) \<and> key f \<notin> set object_prototype_members"
    by (simp add: fields_of_def open_list_def clean_def dquote_def comma_def newline_def
        object_prototype_members_def)
  have rows: "allSignups two_lists ''w2'' = [dee]"
    by (simp add: allSignups_def two_lists_rows ann_def bob_def cyd_def dee_def)
  have hdr: "csv_headers open_list = [''position'', ''email'', ''status'', ''referral_source'',
                ''company'', ''confirmed_at'', ''created_at'']"
    by (simp add: csv_headers_def fields_of_def open_list_def)
  from export_roundtrip_clean_keys[OF wl keys, of show_int]
  obtain csv rws where x: "export_csv show_int two_lists ''w2'' = Inr csv"
      "map (csv_row show_int open_list) (allSignups two_lists ''w2'') = map (map Some) rws"
      "parse_csv csv = Some (csv_headers open_list # rws)"
    by blast
  have "map (csv_row show_int open_list) [dee]
      = map (map Some) [[''1'', ''dee@example.com'', ''confirmed'', [], ''Initech'', ''400'', ''400'']]"
    unfolding list.map dee_row ..
  with x(2) have "map (map Some) rws
      = map (map Some) [[''1'', ''dee@example.com'', ''confirmed'', [], ''Initech'', ''400'', ''400'']]"
    unfolding rows by (rule trans[OF sym])
  then have "rws = [[''1'', ''dee@example.com'', ''confirmed'', [], ''Initech'', ''400'', ''400'']]"
    unfolding inj_map_eq_map[OF inj_mapI[OF inj_Some]] .
  with x(1,3) show ?thesis unfolding hdr by simp
qed

section \<open>Positions\<close>

lemma waitlist_positions_update:
  assumes "\<And>s. waitlistId (f s) = waitlistId s" "\<And>s. position (f s) = position s"
  shows "waitlist_positions (update_signups q f d) k = waitlist_positions d k"
proof -
  have "map position (filter (\<lambda>s. waitlistId s = k) (map (\<lambda>s. if q s then f s else s) xs))
          = map position (filter (\<lambda>s. waitlistId s = k) xs)" for xs
    by (induction xs) (auto simp: assms)
  then show ?thesis by (simp add: waitlist_positions_def update_signups_simps)
qed

lemma waitlist_positions_append:
  "waitlist_positions (d\<lparr>signups := signups d @ [s]\<rparr>) k
     = waitlist_positions d k @ (if waitlistId s = k then [position s] else [])"
  by (simp add: waitlist_positions_def)

lemma create_signup_db_position:
  "db_after (create_signup e p ctx d w em cd ref) = d
   \<or> (\<exists>b. db_after (create_signup e p ctx d w em cd ref)
             = d\<lparr>signups := signups d @ [new_signup b ctx w (next_position d (wid w)) em cd ref]\<rparr>)"
proof (cases "insert_signup (new_signup (js_and (doubleOptIn w) (isEmailConfigured e)) ctx w
                (next_position d (wid w)) em cd ref) d")
  case (Inl err)
  then show ?thesis by (simp add: create_signup_def Let_def fail_def)
next
  case (Inr d')
  from insert_signup_cases[OF Inr] have d': "d' = d\<lparr>signups := signups d @
     [new_signup (js_and (doubleOptIn w) (isEmailConfigured e)) ctx w (next_position d (wid w)) em cd ref]\<rparr>"
    by simp
  have "db_after (create_signup e p ctx d w em cd ref) = d'"
    using Inr by (simp add: create_signup_def Let_def fail_def reply_ok_def split: option.splits)
  with d' show ?thesis by blast
qed

lemma signup_handler_positions:
  "waitlist_positions (db_after (signup_handler e p ctx d sl body)) k = waitlist_positions d k
   \<or> waitlist_positions (db_after (signup_handler e p ctx d sl body)) k
       = waitlist_positions d k @ [next_position d k]"
proof (cases "find (\<lambda>w. slug w = sl) (waitlists d)")
  case None
  then show ?thesis by (simp add: signup_handler_def fail_def)
next
  case (Some w)
  note wl = this
  show ?thesis
  proof (cases "isValidEmail (normalizeEmail (b_email body))")
    case False
    then show ?thesis using wl by (simp add: signup_handler_def fail_def)
  next
    case True
    note valid = this
    show ?thesis
    proof (cases "collect_custom (fields_of w) (body_value body) []")
      case (Inl err)
      then show ?thesis using wl valid by (simp add: signup_handler_def fail_def)
    next
      case (Inr cd)
      note fields = this
      show ?thesis
      proof (cases "find (\<lambda>s. waitlistId s = wid w \<and> email s = normalizeEmail (b_email body)) (signups d)")
        case None
        let ?c = "create_signup e p ctx d w (normalizeEmail (b_email body)) cd (b_referralSource body)"
        from create_signup_db_position[of e p ctx d w "normalizeEmail (b_email body)" cd "b_referralSource body"]
        show ?thesis
        proof
          assume "db_after ?c = d"
          then show ?thesis unfolding signup_handler_new[OF wl valid fields None] by simp
        next
          assume "\<exists>b. db_after ?c = d\<lparr>signups := signups d @ [new_signup b ctx w (next_position d (wid w))
                        (normalizeEmail (b_email body)) cd (b_referralSource body)]\<rparr>"
          then obtain b where b: "db_after ?c = d\<lparr>signups := signups d @ [new_signup b ctx w
                 (next_position d (wid w)) (normalizeEmail (b_email body)) cd (b_referralSource body)]\<rparr>" ..
          have row: "waitlistId (new_signup b ctx w (next_position d (wid w))
                       (normalizeEmail (b_email body)) cd (b_referralSource body)) = wid w"
            "position (new_signup b ctx w (next_position d (wid w))
                       (normalizeEmail (b_email body)) cd (b_referralSource body)) = next_position d (wid w)"
            by (simp_all add: new_signup_def)
          show ?thesis
            unfolding signup_handler_new[OF wl valid fields None] b waitlist_positions_append row
            by (cases "wid w = k") simp_all
        qed
      next
        case (Some x)
        show ?thesis
        proof (cases "truthy_flag (doubleOptIn w) \<and> status x = Pending \<and> isEmailConfigured e")
          case True
          then have "signup_handler e p ctx d sl body = resend_confirmation e p ctx d x"
            unfolding signup_handler_existing[OF wl valid fields Some] by simp
          then show ?thesis
            by (simp add: resend_confirmation_db waitlist_positions_update)
        next
          case False
          then have "signup_handler e p ctx d sl body = fail d [] AlreadySignedUp"
            unfolding signup_handler_existing[OF wl valid fields Some]
            by (simp only: if_False if_cancel)
          then show ?thesis by (simp add: fail_def)
        qed
      qed
    qed
  qed
qed

lemma confirm_handler_positions:
  "waitlist_positions (db_after (confirm_handler e p now d sl t)) k = waitlist_positions d k"
  by (auto simp: confirm_handler_def fail_def reply_ok_def Let_def waitlist_positions_update
      split: option.splits)

lemma patch_signup_positions:
  "waitlist_positions (db_after (patch_signup now d w_id signupId bs)) k = waitlist_positions d k"
  by (auto simp: patch_signup_def fail_def reply_ok_def Let_def waitlist_positions_update
      split: option.splits)

text \<open>
  X2. Positions \<open>1, \<dots>, N\<close> are what the handlers maintain: if the positions of a
  waitlist are \<open>1, \<dots>, N\<close> before a signup request, a confirmation request or an admin
  status patch, then they are \<open>1, \<dots>, N'\<close> after it, with \<open>N' = N\<close> or \<open>N' = N + 1\<close>; a
  table without signups has them. Signup is the only one of the three that adds a
  position, and it adds \<open>N + 1\<close>.
\<close>

theorem positions_stay_contiguous:
  assumes c: "set (waitlist_positions d k) = {1..int (length (waitlist_positions d k))}"
  shows "set (waitlist_positions (db_after (signup_handler e p ctx d sl body)) k)
           = {1..int (length (waitlist_positions (db_after (signup_handler e p ctx d sl body)) k))}
       \<and> set (waitlist_positions (db_after (confirm_handler e p now d sl t)) k)
           = {1..int (length (waitlist_positions (db_after (confirm_handler e p now d sl t)) k))}
       \<and> set (waitlist_positions (db_after (patch_signup now d w_id signupId bs)) k)
           = {1..int (length (waitlist_positions (db_after (patch_signup now d w_id signupId bs)) k))}
       \<and> set (waitlist_positions \<lparr>waitlists = ws, signups = []\<rparr> k)
           = {1..int (length (waitlist_positions \<lparr>waitlists = ws, signups = []\<rparr> k))}"
proof -
  let ?n = "int (length (waitlist_positions d k))"
  have s: "set (waitlist_positions (db_after (signup_handler e p ctx d sl body)) k)
           = {1..int (length (waitlist_positions (db_after (signup_handler e p ctx d sl body)) k))}"
    using signup_handler_positions[of e p ctx d sl body k]
  proof
    assume "waitlist_positions (db_after (signup_handler e p ctx d sl body)) k = waitlist_positions d k"
    then show ?thesis using c by simp
  next
    assume a: "waitlist_positions (db_after (signup_handler e p ctx d sl body)) k
                 = waitlist_positions d k @ [next_position d k]"
    have "insert (?n + 1) {1..?n} = {1..1 + ?n}" by auto
    then show ?thesis unfolding a next_position_contiguous[OF c] using c by simp
  qed
  have e: "set (waitlist_positions \<lparr>waitlists = ws, signups = []\<rparr> k)
           = {1..int (length (waitlist_positions \<lparr>waitlists = ws, signups = []\<rparr> k))}"
    by (simp add: waitlist_positions_def)
  from s c e show ?thesis
    by (simp add: confirm_handler_positions patch_signup_positions)
qed

theorem positions_stay_contiguous_witness:
  "set (waitlist_positions (db_after (signup_handler env_on provider_ok eve_ctx two_lists ''open'' eve_body)) ''w2'')
     = {1..int (length (waitlist_positions
           (db_after (signup_handler env_on provider_ok eve_ctx two_lists ''open'' eve_body)) ''w2''))}"
proof -
  have "set (waitlist_positions two_lists ''w2'') = {1..int (length (waitlist_positions two_lists ''w2''))}"
    unfolding open_positions by simp
  from positions_stay_contiguous[OF this, of env_on provider_ok eve_ctx "''open''" eve_body]
  show ?thesis by simp
qed

section \<open>The email pattern\<close>

text \<open>
  The definition of \<open>isValidEmail\<close> against the regular expression of the source read
  as a language: one or more characters that are neither white space nor \<open>@\<close>, an
  \<open>@\<close>, one or more such characters, a dot, one or more such characters.
\<close>

lemma list_all_take_drop:
  "list_all P xs \<Longrightarrow> list_all P (take n xs)" "list_all P xs \<Longrightarrow> list_all P (drop n xs)"
  by (auto simp: list_all_iff dest: in_set_takeD in_set_dropD)

lemma isValidEmail_iff:
  "isValidEmail e \<longleftrightarrow>
     (\<exists>a b c. e = a @ ''@'' @ b @ ''.'' @ c \<and> a \<noteq> [] \<and> b \<noteq> [] \<and> c \<noteq> []
              \<and> list_all email_char a \<and> list_all email_char b \<and> list_all email_char c)
     \<and> length e \<le> 254"
proof -
  let ?a = "takeWhile (\<lambda>c. c \<noteq> CHR ''@'') e"
  let ?rest = "drop (length ?a + 1) e"
  let ?L = "length ?a < length e \<and> ?a \<noteq> [] \<and> list_all email_char ?a \<and> list_all email_char ?rest
          \<and> list_ex (\<lambda>i. ?rest ! i = CHR ''.'') [1..<length ?rest - 1]"
  let ?R = "\<exists>a b c. e = a @ ''@'' @ b @ ''.'' @ c \<and> a \<noteq> [] \<and> b \<noteq> [] \<and> c \<noteq> []
              \<and> list_all email_char a \<and> list_all email_char b \<and> list_all email_char c"
  have "?L \<longleftrightarrow> ?R"
  proof
    assume L: ?L
    then have lt: "length ?a < length e" by simp
    then have at: "e ! length ?a = CHR ''@''"
      using nth_length_takeWhile[of "\<lambda>c. c \<noteq> CHR ''@''" e] by simp
    have e: "e = ?a @ CHR ''@'' # ?rest"
    proof -
      have "e = take (length ?a) e @ e ! length ?a # drop (Suc (length ?a)) e"
        using lt by (rule id_take_nth_drop)
      moreover have "take (length ?a) e = ?a" by (simp add: takeWhile_eq_take[symmetric])
      ultimately show ?thesis using at by simp
    qed
    from L obtain i where i: "1 \<le> i" "i < length ?rest - 1" "?rest ! i = CHR ''.''"
      by (auto simp: list_ex_iff)
    then have il: "i < length ?rest" by simp
    have r: "?rest = take i ?rest @ CHR ''.'' # drop (Suc i) ?rest"
      using id_take_nth_drop[OF il] i(3) by simp
    have b: "take i ?rest \<noteq> []" using i(1) il by auto
    have c: "drop (Suc i) ?rest \<noteq> []" using i(2) by simp
    from L have all: "list_all email_char ?rest" by simp
    have ab: "list_all email_char (take i ?rest)"
      by (rule list_all_take_drop(1)[OF all])
    have ac: "list_all email_char (drop (Suc i) ?rest)"
      by (rule list_all_take_drop(2)[OF all])
    have "e = ?a @ ''@'' @ take i ?rest @ ''.'' @ drop (Suc i) ?rest"
      using e r by simp
    with L b c ab ac show ?R by blast
  next
    assume ?R
    then obtain a b c where abc: "e = a @ ''@'' @ b @ ''.'' @ c" "a \<noteq> []" "b \<noteq> []" "c \<noteq> []"
      "list_all email_char a" "list_all email_char b" "list_all email_char c" by blast
    have na: "\<forall>x\<in>set a. x \<noteq> CHR ''@''" using abc(5) by (auto simp: list_all_iff email_char_def)
    have tw: "?a = a" unfolding abc(1) using na by (simp add: takeWhile_tail)
    have rest: "?rest = b @ ''.'' @ c" unfolding tw by (simp add: abc(1))
    have dot: "email_char (CHR ''.'')" by (simp add: email_char_def is_space_def)
    have len: "Suc 0 \<le> length b" "length b < length b + length c"
      using abc(3,4) by (simp_all add: Suc_le_eq)
    have "length ?rest - 1 = length b + length c" unfolding rest by simp
    then have "length b \<in> set [1..<length ?rest - 1]"
      using len by (simp only: set_upt atLeastLessThan_iff One_nat_def)
    moreover have "?rest ! length b = CHR ''.''" unfolding rest by simp
    ultimately have ex: "list_ex (\<lambda>i. ?rest ! i = CHR ''.'') [1..<length ?rest - 1]"
      unfolding list_ex_iff by blast
    have all: "list_all email_char ?rest" unfolding rest using abc(6,7) dot by simp
    have "length ?a < length e" unfolding tw by (simp add: abc(1))
    with tw abc(2,5) all ex show ?L by simp
  qed
  then show ?thesis unfolding isValidEmail_def Let_def by (simp only:)
qed

end
